theory Spec2Isabelle
  imports Main "HOL-Library.AList"
begin

section \<open>JavaScript values\<close>

text \<open>
  The stream runs in object mode, so a chunk is any JavaScript value (\<open>chunk: unknown\<close>).
  The sink only ever looks at \<open>typeof\<close>, at the comparison with \<open>null\<close>, at the
  property \<open>type\<close> and at the truthiness of that property, so a value is modelled by its
  kind and, for an object, by its properties. Arrays are objects without a \<open>type\<close>
  property. Numbers are integers here: no code path of the sink depends on a fractional
  value or on \<open>NaN\<close>.
\<close>

datatype js_value =
    JUndefined
  | JNull
  | JBool bool
  | JNum int
  | JStr string
  | JFun
  | JObj "(string \<times> js_value) list"

datatype js_type = TUndefined | TObject | TBoolean | TNumber | TString | TFunction

fun typeof :: "js_value \<Rightarrow> js_type" where
  "typeof JUndefined = TUndefined"
| "typeof JNull = TObject"
| "typeof (JBool b) = TBoolean"
| "typeof (JNum n) = TNumber"
| "typeof (JStr t) = TString"
| "typeof JFun = TFunction"
| "typeof (JObj props) = TObject"

text \<open>The operand of \<open>!\<close>: \<open>undefined\<close>, \<open>null\<close>, \<open>false\<close>, \<open>0\<close> and the empty string are falsy.\<close>

fun truthy :: "js_value \<Rightarrow> bool" where
  "truthy JUndefined = False"
| "truthy JNull = False"
| "truthy (JBool b) = b"
| "truthy (JNum n) = (n \<noteq> 0)"
| "truthy (JStr t) = (t \<noteq> [])"
| "truthy JFun = True"
| "truthy (JObj props) = True"

text \<open>
  \<open>Reflect.get(target, key)\<close>: the value of the property, \<open>undefined\<close> when the object has
  none. The sink calls it only after it has returned for every non-object, so the last
  equation is never reached from there.
\<close>

fun Reflect_get :: "js_value \<Rightarrow> string \<Rightarrow> js_value" where
  "Reflect_get (JObj props) key = (case map_of props key of None \<Rightarrow> JUndefined | Some v \<Rightarrow> v)"
| "Reflect_get v key = JUndefined"

text \<open>The string of a value already known to be a string.\<close>

fun string_of :: "js_value \<Rightarrow> string" where
  "string_of (JStr t) = t"
| "string_of v = []"

text \<open>A thrown \<open>Error\<close>: the name of its class and its message.\<close>

datatype js_error = JsError (error_name: string) (error_message: string)

text \<open>What a template literal prints for an integer: \<open>`${n}`\<close>.\<close>

fun show_nat :: "nat \<Rightarrow> string" where
  "show_nat n =
     (if n < 10 then [''0123456789'' ! n]
      else show_nat (n div 10) @ [''0123456789'' ! (n mod 10)])"

declare show_nat.simps [simp del]

definition show_int :: "int \<Rightarrow> string" where
  "show_int i = (if i < 0 then CHR ''-'' # show_nat (nat (- i)) else show_nat (nat i))"

section \<open>The database, the serializers and the settings\<close>

text \<open>
  The database is \<open>better-sqlite3\<close>, which is not part of the repository: its behaviour is a
  parameter. \<open>'db\<close> is the content of the database; \<open>exec\<close>, \<open>prepare\<close> and the \<open>run\<close> of a
  prepared statement either throw or return, and a call that throws leaves the content as
  it was.
\<close>

type_synonym 'db statement = "js_value list \<Rightarrow> 'db \<Rightarrow> js_error + 'db"

type_synonym object_mapper = "js_value \<Rightarrow> js_error + js_value list"

record 'db database =
  exec :: "string \<Rightarrow> 'db \<Rightarrow> js_error + 'db"
  prepare :: "string \<Rightarrow> js_error + 'db statement"

record 'db serializer =
  statement :: "'db statement"
  mapper :: object_mapper

definition serialize :: "'db serializer \<Rightarrow> js_value \<Rightarrow> 'db \<Rightarrow> js_error + 'db" where
  "serialize ser source d =
     (case mapper ser source of
        Inl err \<Rightarrow> Inl err
      | Inr statementArguments \<Rightarrow> statement ser statementArguments d)"

text \<open>
  \<open>SqliteWritableSettings\<close>. \<open>logger\<close> tells whether the optional logger is there;
  \<open>highWaterMark\<close> and \<open>signal\<close> only go to the constructor of \<open>Writable\<close> and are left out.
  \<open>formatError\<close> is the function of that name imported from another package.
\<close>

record 'db settings =
  db :: "'db database"
  serializersByType :: "string \<rightharpoonup> 'db serializer"
  maxObjectsInTransaction :: int
  logger :: bool
  formatError :: "js_error \<Rightarrow> string"

section \<open>The state of the sink\<close>

text \<open>
  The two private fields of \<open>SqliteWritable\<close>, together with what its collaborators hold:
  the content of the database, the statements handed to \<open>db.exec\<close> so far, and the two
  message lists of the logger.
\<close>

record 'db sink =
  inTransaction :: bool
  objectsInTransaction :: int
  store :: 'db
  executed :: "string list"
  debugMessages :: "string list"
  errorMessages :: "string list"

definition new_sink :: "'db \<Rightarrow> 'db sink" where
  "new_sink d =
     \<lparr>inTransaction = False, objectsInTransaction = 0, store = d,
      executed = [], debugMessages = [], errorMessages = []\<rparr>"

text \<open>
  A method either returns or throws, and what it has done to the state before throwing
  stays done: the result is the thrown error, if any, with the state reached.
\<close>

type_synonym 'db outcome = "js_error option \<times> 'db sink"

definition and_then ::
  "('db sink \<Rightarrow> 'db outcome) \<Rightarrow> ('db sink \<Rightarrow> 'db outcome) \<Rightarrow> 'db sink \<Rightarrow> 'db outcome" where
  "and_then f g s = (case f s of (None, s') \<Rightarrow> g s' | (Some err, s') \<Rightarrow> (Some err, s'))"

text \<open>\<open>this.logger?.debug(message)\<close> and \<open>this.logger?.error(message)\<close>.\<close>

definition log_debug :: "'db settings \<Rightarrow> string \<Rightarrow> 'db sink \<Rightarrow> 'db sink" where
  "log_debug cfg message s =
     (if logger cfg then s\<lparr>debugMessages := debugMessages s @ [message]\<rparr> else s)"

definition log_error :: "'db settings \<Rightarrow> string \<Rightarrow> 'db sink \<Rightarrow> 'db sink" where
  "log_error cfg message s =
     (if logger cfg then s\<lparr>errorMessages := errorMessages s @ [message]\<rparr> else s)"

text \<open>\<open>this.db.exec(sql)\<close>: the call is recorded, then the database answers.\<close>

definition db_exec :: "'db settings \<Rightarrow> string \<Rightarrow> 'db sink \<Rightarrow> 'db outcome" where
  "db_exec cfg sql s =
     (case exec (db cfg) sql (store s) of
        Inl err \<Rightarrow> (Some err, s\<lparr>executed := executed s @ [sql]\<rparr>)
      | Inr d \<Rightarrow> (None, s\<lparr>store := d, executed := executed s @ [sql]\<rparr>))"

section \<open>The methods of the sink\<close>

definition TYPE_FIELD :: string where
  "TYPE_FIELD = ''type''"

definition tryToSaveToDb :: "'db settings \<Rightarrow> js_value \<Rightarrow> 'db sink \<Rightarrow> 'db outcome" where
  "tryToSaveToDb cfg foundObject s =
     (if typeof foundObject \<noteq> TObject \<or> foundObject = JNull then
        (None, log_error cfg ''Encountered non-object value'' s)
      else
        let objectType = Reflect_get foundObject TYPE_FIELD in
        if \<not> truthy objectType \<or> typeof objectType \<noteq> TString then
          (None, log_error cfg
             (''Encountered object without the '' @ [CHR 0x27] @ TYPE_FIELD @ [CHR 0x27]
                @ '' string field'') s)
        else
          (case serializersByType cfg (string_of objectType) of
             None \<Rightarrow>
               (None, log_error cfg
                  (''Unregistered type: '' @ [CHR 0x27] @ string_of objectType @ [CHR 0x27]) s)
           | Some ser \<Rightarrow>
               (case serialize ser foundObject (store s) of
                  Inr d \<Rightarrow>
                    (None, s\<lparr>store := d, objectsInTransaction := objectsInTransaction s + 1\<rparr>)
                | Inl err \<Rightarrow> (None, log_error cfg (formatError cfg err) s))))"

definition runInTransaction ::
  "'db settings \<Rightarrow> ('db sink \<Rightarrow> 'db outcome) \<Rightarrow> 'db sink \<Rightarrow> 'db outcome" where
  "runInTransaction cfg dbOperations =
     and_then
       (\<lambda>s. if \<not> inTransaction s then
              and_then (db_exec cfg ''BEGIN TRANSACTION'')
                (\<lambda>s1. (None, s1\<lparr>inTransaction := True\<rparr>))
                (log_debug cfg ''Beginning transaction...'' s)
            else (None, s))
       (and_then dbOperations
          (\<lambda>s. if objectsInTransaction s \<ge> maxObjectsInTransaction cfg then
                 and_then (db_exec cfg ''COMMIT'')
                   (\<lambda>s1. (None, s1\<lparr>objectsInTransaction := 0, inTransaction := False\<rparr>))
                   (log_debug cfg
                      (''Committing transaction with '' @ show_int (objectsInTransaction s)
                         @ '' objects...'') s)
               else (None, s)))"

text \<open>
  \<open>_write\<close>: the error caught, if any, is the argument of the callback. The encoding is
  not used.
\<close>

definition writable_write :: "'db settings \<Rightarrow> js_value \<Rightarrow> 'db sink \<Rightarrow> 'db outcome" where
  "writable_write cfg chunk = runInTransaction cfg (tryToSaveToDb cfg chunk)"

text \<open>The \<open>for\<close> loop of \<open>_writev\<close> over the chunks of the group.\<close>

fun save_chunks :: "'db settings \<Rightarrow> js_value list \<Rightarrow> 'db sink \<Rightarrow> 'db outcome" where
  "save_chunks cfg [] s = (None, s)"
| "save_chunks cfg (chunk # chunks) s =
     and_then (tryToSaveToDb cfg chunk) (save_chunks cfg chunks) s"

definition writable_writev :: "'db settings \<Rightarrow> js_value list \<Rightarrow> 'db sink \<Rightarrow> 'db outcome" where
  "writable_writev cfg chunks = runInTransaction cfg (save_chunks cfg chunks)"

definition writable_final :: "'db settings \<Rightarrow> 'db sink \<Rightarrow> 'db outcome" where
  "writable_final cfg s =
     (if objectsInTransaction s \<noteq> 0 then
        and_then (db_exec cfg ''COMMIT'')
          (\<lambda>s1. (None, s1\<lparr>objectsInTransaction := 0, inTransaction := False\<rparr>))
          (log_debug cfg
             (''Final commit with '' @ show_int (objectsInTransaction s) @ '' objects...'') s)
      else (None, s))"

text \<open>
  A producer that writes the chunks one at a time; the stream is destroyed by the first
  error, so nothing is written after it.
\<close>

fun write_each :: "'db settings \<Rightarrow> js_value list \<Rightarrow> 'db sink \<Rightarrow> 'db outcome" where
  "write_each cfg [] s = (None, s)"
| "write_each cfg (chunk # chunks) s =
     and_then (writable_write cfg chunk) (write_each cfg chunks) s"

section \<open>The builder\<close>

type_synonym blueprint = "string \<times> object_mapper"

record builder =
  serializerBlueprintsByType :: "(string \<times> blueprint) list"
  builder_maxObjectsInTransaction :: int
  builder_logger :: bool

definition new_builder :: builder where
  "new_builder =
     \<lparr>serializerBlueprintsByType = [], builder_maxObjectsInTransaction = 5000,
      builder_logger = False\<rparr>"

text \<open>A \<open>Map\<close> keeps the order of insertion, and \<open>set\<close> on a key already there replaces its value in place.\<close>

definition withType :: "string \<Rightarrow> string \<Rightarrow> object_mapper \<Rightarrow> builder \<Rightarrow> builder" where
  "withType type sql m b =
     b\<lparr>serializerBlueprintsByType := AList.update type (sql, m) (serializerBlueprintsByType b)\<rparr>"

definition withMaxObjectsInTransaction :: "int \<Rightarrow> builder \<Rightarrow> builder" where
  "withMaxObjectsInTransaction n b = b\<lparr>builder_maxObjectsInTransaction := n\<rparr>"

definition withLogger :: "bool \<Rightarrow> builder \<Rightarrow> builder" where
  "withLogger l b = b\<lparr>builder_logger := l\<rparr>"

text \<open>
  The blueprints are built in the order of the map; the first \<open>db.prepare\<close> that throws ends
  the construction. The second component lists the statements handed to \<open>db.prepare\<close>.
\<close>

fun build_serializers ::
  "'db database \<Rightarrow> (string \<times> blueprint) list
     \<Rightarrow> (js_error + (string \<times> 'db serializer) list) \<times> string list" where
  "build_serializers d [] = (Inr [], [])"
| "build_serializers d ((type, (sql, m)) # rest) =
     (case prepare d sql of
        Inl err \<Rightarrow> (Inl err, [sql])
      | Inr st \<Rightarrow>
          (case build_serializers d rest of
             (Inl err, prepared) \<Rightarrow> (Inl err, sql # prepared)
           | (Inr sers, prepared) \<Rightarrow>
               (Inr ((type, \<lparr>statement = st, mapper = m\<rparr>) # sers), sql # prepared)))"

definition build ::
  "(js_error \<Rightarrow> string) \<Rightarrow> builder \<Rightarrow> 'db database \<Rightarrow> (js_error + 'db settings) \<times> string list" where
  "build fmt b d =
     (if builder_maxObjectsInTransaction b \<le> 0 then
        (Inl (JsError ''Error''
           (''Invalid max objects in transaction: ''
              @ show_int (builder_maxObjectsInTransaction b))), [])
      else
        (case build_serializers d (serializerBlueprintsByType b) of
           (Inl err, prepared) \<Rightarrow> (Inl err, prepared)
         | (Inr sers, prepared) \<Rightarrow>
             (Inr \<lparr>db = d, serializersByType = map_of sers,
                   maxObjectsInTransaction = builder_maxObjectsInTransaction b,
                   logger = builder_logger b, formatError = fmt\<rparr>, prepared)))"

section \<open>Notions used by the statements\<close>

text \<open>
  A record the sink cannot dispatch: not an object (\<open>null\<close> included), an object whose
  \<open>type\<close> is absent or not a string, or an object whose \<open>type\<close> is not registered.
\<close>

definition malformed :: "'db settings \<Rightarrow> js_value \<Rightarrow> bool" where
  "malformed cfg r \<longleftrightarrow>
     typeof r \<noteq> TObject \<or> r = JNull
     \<or> typeof (Reflect_get r TYPE_FIELD) \<noteq> TString
     \<or> serializersByType cfg (string_of (Reflect_get r TYPE_FIELD)) = None"

text \<open>
  What the database holds after the statement of a record, when the record is one the sink
  dispatches (an object whose \<open>type\<close> is a non-empty string with a serializer) and the
  database, holding \<open>d\<close>, accepts the statement; and after the statements of a list of
  records, one after the other, when it accepts each of them in what it holds by then.
\<close>

definition accept :: "'db settings \<Rightarrow> js_value \<Rightarrow> 'db \<Rightarrow> 'db option" where
  "accept cfg r d =
     (if typeof r = TObject \<and> r \<noteq> JNull
         \<and> typeof (Reflect_get r TYPE_FIELD) = TString
         \<and> string_of (Reflect_get r TYPE_FIELD) \<noteq> []
      then (case serializersByType cfg (string_of (Reflect_get r TYPE_FIELD)) of
              None \<Rightarrow> None
            | Some ser \<Rightarrow> (case serialize ser r d of Inl err \<Rightarrow> None | Inr d' \<Rightarrow> Some d'))
      else None)"

fun accept_all :: "'db settings \<Rightarrow> js_value list \<Rightarrow> 'db \<Rightarrow> 'db option" where
  "accept_all cfg [] d = Some d"
| "accept_all cfg (r # rs) d =
     (case accept cfg r d of None \<Rightarrow> None | Some d' \<Rightarrow> accept_all cfg rs d')"

text \<open>
  The same for records delivered one at a time, in the words of the specification: with
  nothing pending the database is handed \<open>BEGIN TRANSACTION\<close>, then the statement of the
  record, then \<open>COMMIT\<close> when the records pending reach the threshold. The result is what
  the database holds at the end when it accepts every statement in what it holds by then,
  and the flush adds a \<open>COMMIT\<close> when records are pending.
\<close>

fun single_writes :: "'db settings \<Rightarrow> nat \<Rightarrow> js_value list \<Rightarrow> 'db \<Rightarrow> 'db option" where
  "single_writes cfg pending [] d = Some d"
| "single_writes cfg pending (r # rs) d =
     (case (if pending = 0 then exec (db cfg) ''BEGIN TRANSACTION'' d else Inr d) of
        Inl err \<Rightarrow> None
      | Inr d1 \<Rightarrow>
          (case accept cfg r d1 of
             None \<Rightarrow> None
           | Some d2 \<Rightarrow>
               if maxObjectsInTransaction cfg \<le> int pending + 1 then
                 (case exec (db cfg) ''COMMIT'' d2 of
                    Inl err \<Rightarrow> None
                  | Inr d3 \<Rightarrow> single_writes cfg 0 rs d3)
               else single_writes cfg (Suc pending) rs d2))"

definition final_commit :: "'db settings \<Rightarrow> nat \<Rightarrow> 'db \<Rightarrow> 'db option" where
  "final_commit cfg pending d =
     (if pending = 0 then Some d
      else (case exec (db cfg) ''COMMIT'' d of Inl err \<Rightarrow> None | Inr d' \<Rightarrow> Some d'))"

text \<open>What reaches the logger: the messages when there is one, nothing otherwise.\<close>

definition logged :: "'db settings \<Rightarrow> string list \<Rightarrow> string list" where
  "logged cfg messages = (if logger cfg then messages else [])"

text \<open>Two states that differ at most in the error messages logged, and two outcomes that do.\<close>

definition same_but_errors :: "'db sink \<Rightarrow> 'db sink \<Rightarrow> bool" where
  "same_but_errors s t \<longleftrightarrow>
     inTransaction s = inTransaction t \<and> objectsInTransaction s = objectsInTransaction t
     \<and> store s = store t \<and> executed s = executed t \<and> debugMessages s = debugMessages t"

definition same_outcome :: "'db outcome \<Rightarrow> 'db outcome \<Rightarrow> bool" where
  "same_outcome p q \<longleftrightarrow> fst p = fst q \<and> same_but_errors (snd p) (snd q)"

text \<open>The transaction progress of the specification and its invariant.\<close>

definition progress_invariant :: "'db sink \<Rightarrow> bool" where
  "progress_invariant s \<longleftrightarrow>
     (0 < objectsInTransaction s \<longrightarrow> inTransaction s)
     \<and> (\<not> inTransaction s \<longrightarrow> objectsInTransaction s = 0)"

text \<open>
  One operation of the sink, with its outcome, and the states the sink can be in: those
  reached from a new sink by any operations, whether they return or throw.
\<close>

inductive sink_step :: "'db settings \<Rightarrow> 'db sink \<Rightarrow> 'db outcome \<Rightarrow> bool" for cfg where
  step_write: "sink_step cfg s (writable_write cfg chunk s)"
| step_writev: "sink_step cfg s (writable_writev cfg chunks s)"
| step_final: "sink_step cfg s (writable_final cfg s)"

inductive reachable :: "'db settings \<Rightarrow> 'db sink \<Rightarrow> bool" for cfg where
  reachable_new: "reachable cfg (new_sink d)"
| reachable_step: "reachable cfg s \<Longrightarrow> sink_step cfg s (r, s') \<Longrightarrow> reachable cfg s'"

text \<open>The operation has issued a \<open>COMMIT\<close>: it is the last statement of a longer list.\<close>

definition committed :: "'db sink \<Rightarrow> 'db sink \<Rightarrow> bool" where
  "committed s s' \<longleftrightarrow>
     length (executed s) < length (executed s') \<and> last (executed s') = ''COMMIT''"

text \<open>
  The two \<open>if\<close> statements of \<open>runInTransaction\<close>, before and after the operations, named
  so that the lemmas can speak of them.
\<close>

definition begin_if_idle :: "'db settings \<Rightarrow> 'db sink \<Rightarrow> 'db outcome" where
  "begin_if_idle cfg s =
     (if \<not> inTransaction s then
        and_then (db_exec cfg ''BEGIN TRANSACTION'')
          (\<lambda>s1. (None, s1\<lparr>inTransaction := True\<rparr>))
          (log_debug cfg ''Beginning transaction...'' s)
      else (None, s))"

definition commit_if_full :: "'db settings \<Rightarrow> 'db sink \<Rightarrow> 'db outcome" where
  "commit_if_full cfg s =
     (if objectsInTransaction s \<ge> maxObjectsInTransaction cfg then
        and_then (db_exec cfg ''COMMIT'')
          (\<lambda>s1. (None, s1\<lparr>objectsInTransaction := 0, inTransaction := False\<rparr>))
          (log_debug cfg
             (''Committing transaction with '' @ show_int (objectsInTransaction s)
                @ '' objects...'') s)
      else (None, s))"

text \<open>
  What the operations run inside a transaction have in common: they return, they neither
  open nor close the transaction, they hand nothing to \<open>db.exec\<close>, and they never lower
  the count.
\<close>

definition keeps_transaction :: "('db sink \<Rightarrow> 'db outcome) \<Rightarrow> bool" where
  "keeps_transaction f \<longleftrightarrow>
     (\<forall>s. fst (f s) = None \<and> inTransaction (snd (f s)) = inTransaction s
        \<and> executed (snd (f s)) = executed s
        \<and> objectsInTransaction s \<le> objectsInTransaction (snd (f s)))"

text \<open>The invariant in the form that is inductive: the count is also never negative.\<close>

definition sound :: "'db sink \<Rightarrow> bool" where
  "sound s \<longleftrightarrow>
     0 \<le> objectsInTransaction s \<and> (\<not> inTransaction s \<longrightarrow> objectsInTransaction s = 0)"

section \<open>The fixtures of the test suite\<close>

text \<open>
  The tables \<open>bears\<close> and \<open>chipmunks\<close> of the tests: rows of a table name and values, the
  first column the primary key, no column accepting \<open>NULL\<close>. An \<open>INSERT\<close> throws on a
  violated constraint, an \<open>INSERT OR IGNORE\<close> leaves the table as it is.
\<close>

type_synonym test_db = "(string \<times> js_value list) list"

definition insert_row :: "bool \<Rightarrow> string \<Rightarrow> js_value list \<Rightarrow> test_db \<Rightarrow> js_error + test_db" where
  "insert_row or_ignore table args d =
     (if JNull \<in> set args then
        (if or_ignore then Inr d
         else Inl (JsError ''SqliteError'' ''NOT NULL constraint failed''))
      else if \<exists>row \<in> set d. fst row = table \<and> take 1 (snd row) = take 1 args then
        (if or_ignore then Inr d
         else Inl (JsError ''SqliteError'' ''UNIQUE constraint failed''))
      else Inr (d @ [(table, args)]))"

definition test_database :: "test_db database" where
  "test_database =
     \<lparr>exec = (\<lambda>sql d. Inr d),
      prepare = (\<lambda>sql.
        if sql = ''INSERT INTO bears (name, age) VALUES (?, ?)''
          then Inr (insert_row False ''bears'')
        else if sql = ''INSERT INTO chipmunks (name, gathered_nuts) VALUES (?, ?)''
          then Inr (insert_row False ''chipmunks'')
        else Inl (JsError ''SqliteError'' ''syntax error''))\<rparr>"

text \<open>\<open>replaceDbWithCrashingFake\<close>: every \<open>exec\<close> throws.\<close>

definition crashing_database :: "test_db database" where
  "crashing_database =
     \<lparr>exec = (\<lambda>sql d. Inl (JsError ''Error'' ''Test exec error!'')),
      prepare = (\<lambda>sql. Inl (JsError ''Error'' ''Test exec error!''))\<rparr>"

definition bear_mapper :: object_mapper where
  "bear_mapper bear = Inr [Reflect_get bear ''name'', Reflect_get bear ''age'']"

definition chipmunk_mapper :: object_mapper where
  "chipmunk_mapper chipmunk =
     Inr [Reflect_get chipmunk ''name'', Reflect_get chipmunk ''gatheredNuts'']"

definition yogi :: js_value where
  "yogi = JObj [(''type'', JStr ''bear''), (''name'', JStr ''Yogi''), (''age'', JNum 36)]"

definition bubu :: js_value where
  "bubu = JObj [(''type'', JStr ''bear''), (''name'', JStr ''Bubu''), (''age'', JNum 34)]"

definition bozo :: js_value where
  "bozo = JObj [(''type'', JStr ''bear''), (''name'', JStr ''Bozo''), (''age'', JNum 31)]"

definition fakeYogi :: js_value where
  "fakeYogi = JObj [(''type'', JStr ''bear''), (''name'', JStr ''Yogi''), (''age'', JNull)]"

definition dodo :: js_value where
  "dodo = JObj [(''name'', JStr ''Dodo'')]"

definition test_formatError :: "js_error \<Rightarrow> string" where
  "test_formatError err = error_name err @ '': '' @ error_message err"

text \<open>\<open>createTestWritableBuilder\<close> and \<open>createTestWritable\<close>.\<close>

definition test_builder :: builder where
  "test_builder =
     withType ''chipmunk'' ''INSERT INTO chipmunks (name, gathered_nuts) VALUES (?, ?)''
       chipmunk_mapper
       (withType ''bear'' ''INSERT INTO bears (name, age) VALUES (?, ?)'' bear_mapper
          (withLogger True new_builder))"

definition test_settings :: "int \<Rightarrow> test_db settings" where
  "test_settings n =
     \<lparr>db = test_database,
      serializersByType =
        map_of
          [(''bear'', \<lparr>statement = insert_row False ''bears'', mapper = bear_mapper\<rparr>),
           (''chipmunk'',
              \<lparr>statement = insert_row False ''chipmunks'', mapper = chipmunk_mapper\<rparr>)],
      maxObjectsInTransaction = n, logger = True, formatError = test_formatError\<rparr>"

text \<open>A sink whose registry has a serializer under the empty string.\<close>

definition empty_key_settings :: "test_db settings" where
  "empty_key_settings =
     \<lparr>db = test_database,
      serializersByType =
        map_of [([], \<lparr>statement = insert_row True ''bears'', mapper = bear_mapper\<rparr>)],
      maxObjectsInTransaction = 1000, logger = True, formatError = test_formatError\<rparr>"

definition nameless :: js_value where
  "nameless = JObj [(''type'', JStr []), (''name'', JStr ''Yogi''), (''age'', JNum 36)]"

definition crashing_settings :: "int \<Rightarrow> test_db settings" where
  "crashing_settings n = (test_settings n)\<lparr>db := crashing_database\<rparr>"

text \<open>The sink of the tests once \<open>yogi\<close> has been written below the threshold, and once that has been flushed.\<close>

definition yogi_pending :: "test_db sink" where
  "yogi_pending =
     \<lparr>inTransaction = True, objectsInTransaction = 1,
      store = [(''bears'', [JStr ''Yogi'', JNum 36])],
      executed = [''BEGIN TRANSACTION''],
      debugMessages = [''Beginning transaction...''], errorMessages = []\<rparr>"

definition yogi_flushed :: "test_db sink" where
  "yogi_flushed =
     \<lparr>inTransaction = False, objectsInTransaction = 0,
      store = [(''bears'', [JStr ''Yogi'', JNum 36])],
      executed = [''BEGIN TRANSACTION'', ''COMMIT''],
      debugMessages = [''Beginning transaction...'', ''Final commit with 1 objects...''],
      errorMessages = []\<rparr>"

text \<open>
  The sink of the tests, with a threshold of two, once the three bears have been written in
  cork mode; and the sink, with a threshold of a thousand, once a number and an object
  without a \<open>type\<close> have been delivered as one group.
\<close>

definition three_bears_committed :: "test_db sink" where
  "three_bears_committed =
     \<lparr>inTransaction = False, objectsInTransaction = 0,
      store = [(''bears'', [JStr ''Yogi'', JNum 36]), (''bears'', [JStr ''Bubu'', JNum 34]),
               (''bears'', [JStr ''Bozo'', JNum 31])],
      executed = [''BEGIN TRANSACTION'', ''COMMIT''],
      debugMessages =
        [''Beginning transaction...'', ''Committing transaction with 3 objects...''],
      errorMessages = []\<rparr>"

definition three_bears_written :: "test_db sink" where
  "three_bears_written =
     \<lparr>inTransaction = False, objectsInTransaction = 0,
      store = [(''bears'', [JStr ''Yogi'', JNum 36]), (''bears'', [JStr ''Bubu'', JNum 34]),
               (''bears'', [JStr ''Bozo'', JNum 31])],
      executed = [''BEGIN TRANSACTION'', ''COMMIT'', ''BEGIN TRANSACTION'', ''COMMIT''],
      debugMessages =
        [''Beginning transaction...'', ''Committing transaction with 2 objects...'',
         ''Beginning transaction...'', ''Final commit with 1 objects...''],
      errorMessages = []\<rparr>"

definition only_invalid_delivered :: "test_db sink" where
  "only_invalid_delivered =
     \<lparr>inTransaction = True, objectsInTransaction = 0, store = [],
      executed = [''BEGIN TRANSACTION''],
      debugMessages = [''Beginning transaction...''],
      errorMessages =
        [''Encountered non-object value'',
         ''Encountered object without the 'type' string field'']\<rparr>"

section \<open>Sequencing and the operations run inside a transaction\<close>

lemma tryToSaveToDb_returns: "fst (tryToSaveToDb cfg r s) = None"
  by (simp add: tryToSaveToDb_def Let_def split: option.splits sum.splits)

lemma save_chunks_returns: "fst (save_chunks cfg rs s) = None"
proof (induction rs arbitrary: s)
  case Nil
  show ?case by simp
next
  case (Cons r rs)
  obtain s1 where s1: "tryToSaveToDb cfg r s = (None, s1)"
    using tryToSaveToDb_returns [of cfg r s] by (cases "tryToSaveToDb cfg r s") auto
  show ?case using Cons.IH [of s1] by (simp add: and_then_def s1)
qed

lemma save_chunks_append:
  "save_chunks cfg (xs @ ys) s = and_then (save_chunks cfg xs) (save_chunks cfg ys) s"
proof (induction xs arbitrary: s)
  case Nil
  show ?case by (simp add: and_then_def)
next
  case (Cons r rs)
  obtain s1 where s1: "tryToSaveToDb cfg r s = (None, s1)"
    using tryToSaveToDb_returns [of cfg r s] by (cases "tryToSaveToDb cfg r s") auto
  show ?case using Cons.IH [of s1] by (simp add: and_then_def s1)
qed

lemma tryToSaveToDb_fields:
  "inTransaction (snd (tryToSaveToDb cfg r s)) = inTransaction s
   \<and> executed (snd (tryToSaveToDb cfg r s)) = executed s
   \<and> debugMessages (snd (tryToSaveToDb cfg r s)) = debugMessages s
   \<and> objectsInTransaction s \<le> objectsInTransaction (snd (tryToSaveToDb cfg r s))"
  by (simp add: tryToSaveToDb_def Let_def log_error_def split: option.splits sum.splits)

lemma save_chunks_fields:
  "inTransaction (snd (save_chunks cfg rs s)) = inTransaction s
   \<and> executed (snd (save_chunks cfg rs s)) = executed s
   \<and> debugMessages (snd (save_chunks cfg rs s)) = debugMessages s
   \<and> objectsInTransaction s \<le> objectsInTransaction (snd (save_chunks cfg rs s))"
proof (induction rs arbitrary: s)
  case Nil
  show ?case by simp
next
  case (Cons r rs)
  obtain s1 where s1: "tryToSaveToDb cfg r s = (None, s1)"
    using tryToSaveToDb_returns [of cfg r s] by (cases "tryToSaveToDb cfg r s") auto
  show ?case
    using Cons.IH [of s1] tryToSaveToDb_fields [of cfg r s] by (simp add: and_then_def s1)
qed

lemma keeps_tryToSaveToDb: "keeps_transaction (tryToSaveToDb cfg r)"
  using tryToSaveToDb_fields [of cfg r] tryToSaveToDb_returns [of cfg r]
  by (simp add: keeps_transaction_def)

lemma keeps_save_chunks: "keeps_transaction (save_chunks cfg rs)"
  using save_chunks_fields [of cfg rs] save_chunks_returns [of cfg rs]
  by (simp add: keeps_transaction_def)

section \<open>The two phases of \<open>runInTransaction\<close>\<close>

lemma runInTransaction_phases:
  "runInTransaction cfg f = and_then (begin_if_idle cfg) (and_then f (commit_if_full cfg))"
  unfolding runInTransaction_def begin_if_idle_def [abs_def] commit_if_full_def [abs_def]
  by (rule refl)

lemma begin_if_idle_open: "inTransaction s \<Longrightarrow> begin_if_idle cfg s = (None, s)"
  by (simp add: begin_if_idle_def)

lemma begin_if_idle_ok:
  "\<not> inTransaction s \<Longrightarrow> exec (db cfg) ''BEGIN TRANSACTION'' (store s) = Inr d \<Longrightarrow>
   begin_if_idle cfg s =
     (None, (log_debug cfg ''Beginning transaction...'' s)
        \<lparr>inTransaction := True, store := d, executed := executed s @ [''BEGIN TRANSACTION'']\<rparr>)"
  by (simp add: begin_if_idle_def and_then_def db_exec_def log_debug_def)

lemma begin_if_idle_fails:
  "\<not> inTransaction s \<Longrightarrow> exec (db cfg) ''BEGIN TRANSACTION'' (store s) = Inl err \<Longrightarrow>
   begin_if_idle cfg s =
     (Some err, (log_debug cfg ''Beginning transaction...'' s)
        \<lparr>executed := executed s @ [''BEGIN TRANSACTION'']\<rparr>)"
  by (simp add: begin_if_idle_def and_then_def db_exec_def log_debug_def)

lemma commit_if_full_below:
  "objectsInTransaction s < maxObjectsInTransaction cfg \<Longrightarrow> commit_if_full cfg s = (None, s)"
  by (simp add: commit_if_full_def)

lemma commit_if_full_ok:
  "maxObjectsInTransaction cfg \<le> objectsInTransaction s \<Longrightarrow>
   exec (db cfg) ''COMMIT'' (store s) = Inr d \<Longrightarrow>
   commit_if_full cfg s =
     (None, (log_debug cfg
        (''Committing transaction with '' @ show_int (objectsInTransaction s) @ '' objects...'') s)
        \<lparr>inTransaction := False, objectsInTransaction := 0, store := d,
          executed := executed s @ [''COMMIT'']\<rparr>)"
  by (simp add: commit_if_full_def and_then_def db_exec_def log_debug_def)

section \<open>The error log decides nothing\<close>

lemma log_error_same: "same_but_errors (log_error cfg message s) s"
  by (simp add: log_error_def same_but_errors_def)

lemma same_but_errors_refl: "same_but_errors s s"
  by (simp add: same_but_errors_def)

lemma same_but_errors_trans:
  "same_but_errors s t \<Longrightarrow> same_but_errors t u \<Longrightarrow> same_but_errors s u"
  by (simp add: same_but_errors_def)

lemma tryToSaveToDb_same:
  "same_but_errors s t \<Longrightarrow> same_outcome (tryToSaveToDb cfg r s) (tryToSaveToDb cfg r t)"
  by (simp add: same_outcome_def same_but_errors_def tryToSaveToDb_def Let_def log_error_def
      split: option.splits sum.splits)

lemma save_chunks_same:
  "same_but_errors s t \<Longrightarrow> same_outcome (save_chunks cfg rs s) (save_chunks cfg rs t)"
proof (induction rs arbitrary: s t)
  case Nil
  then show ?case by (simp add: same_outcome_def)
next
  case (Cons r rs)
  obtain s1 where s1: "tryToSaveToDb cfg r s = (None, s1)"
    using tryToSaveToDb_returns [of cfg r s] by (cases "tryToSaveToDb cfg r s") auto
  obtain t1 where t1: "tryToSaveToDb cfg r t = (None, t1)"
    using tryToSaveToDb_returns [of cfg r t] by (cases "tryToSaveToDb cfg r t") auto
  have "same_but_errors s1 t1"
    using tryToSaveToDb_same [OF Cons.prems, of cfg r] by (simp add: same_outcome_def s1 t1)
  then show ?case using Cons.IH by (simp add: and_then_def s1 t1)
qed

lemma and_then_same:
  assumes "same_outcome (f s) (f' t)"
    and "\<And>s1 t1. same_but_errors s1 t1 \<Longrightarrow> same_outcome (g s1) (g' t1)"
  shows "same_outcome (and_then f g s) (and_then f' g' t)"
proof (cases "f s")
  case (Pair a s1)
  obtain t1 where ft: "f' t = (a, t1)" and st: "same_but_errors s1 t1"
    using assms(1) Pair by (cases "f' t") (auto simp add: same_outcome_def)
  show ?thesis
  proof (cases a)
    case None
    then show ?thesis using Pair ft assms(2) [OF st] by (simp add: and_then_def)
  next
    case (Some err)
    then show ?thesis using Pair ft st by (simp add: and_then_def same_outcome_def)
  qed
qed

lemma begin_if_idle_same:
  "same_but_errors s t \<Longrightarrow> same_outcome (begin_if_idle cfg s) (begin_if_idle cfg t)"
  by (simp add: begin_if_idle_def and_then_def db_exec_def log_debug_def same_outcome_def
      same_but_errors_def split: sum.splits)

lemma commit_if_full_same:
  "same_but_errors s t \<Longrightarrow> same_outcome (commit_if_full cfg s) (commit_if_full cfg t)"
  by (simp add: commit_if_full_def and_then_def db_exec_def log_debug_def same_outcome_def
      same_but_errors_def split: sum.splits)

lemma runInTransaction_same:
  assumes "\<And>s1 t1. same_but_errors s1 t1 \<Longrightarrow> same_outcome (f s1) (g t1)"
    and "same_but_errors s t"
  shows "same_outcome (runInTransaction cfg f s) (runInTransaction cfg g t)"
  unfolding runInTransaction_phases
  by (intro and_then_same begin_if_idle_same commit_if_full_same assms)

lemma runInTransaction_open_same:
  assumes "inTransaction s" and "same_outcome (f s) (g s)"
  shows "same_outcome (runInTransaction cfg f s) (runInTransaction cfg g s)"
proof -
  have "same_outcome (and_then f (commit_if_full cfg) s) (and_then g (commit_if_full cfg) s)"
    by (intro and_then_same commit_if_full_same assms(2))
  then show ?thesis
    by (simp add: runInTransaction_phases and_then_def begin_if_idle_open [OF assms(1)])
qed

section \<open>Records that are dropped\<close>

lemma malformed_dropped:
  assumes "malformed cfg r"
  shows "\<exists>message. tryToSaveToDb cfg r s = (None, log_error cfg message s)
     \<and> message \<in> {''Encountered non-object value'',
          ''Encountered object without the 'type' string field'',
          ''Unregistered type: '' @ [CHR 0x27] @ string_of (Reflect_get r TYPE_FIELD)
             @ [CHR 0x27]}"
  using assms
  by (auto simp add: malformed_def tryToSaveToDb_def Let_def TYPE_FIELD_def split: option.splits)

lemma save_chunks_skip:
  assumes "\<And>s. \<exists>message. tryToSaveToDb cfg r s = (None, log_error cfg message s)"
    and st: "same_but_errors s t"
  shows "same_outcome (save_chunks cfg (xs @ r # ys) s) (save_chunks cfg (xs @ ys) t)"
proof -
  have tail: "same_outcome (save_chunks cfg (r # ys) s1) (save_chunks cfg ys t1)"
    if st1: "same_but_errors s1 t1" for s1 t1
  proof -
    obtain message where m: "tryToSaveToDb cfg r s1 = (None, log_error cfg message s1)"
      using assms(1) by blast
    have "same_but_errors (log_error cfg message s1) t1"
      using log_error_same st1 same_but_errors_trans by blast
    then show ?thesis using save_chunks_same by (simp add: and_then_def m)
  qed
  show ?thesis
    unfolding save_chunks_append
  proof (rule and_then_same)
    show "same_outcome (save_chunks cfg xs s) (save_chunks cfg xs t)"
      by (rule save_chunks_same [OF st])
  next
    fix s1 t1 :: "'a sink"
    assume "same_but_errors s1 t1"
    then show "same_outcome (save_chunks cfg (r # ys) s1) (save_chunks cfg ys t1)"
      by (rule tail)
  qed
qed

lemma dropped_then_next:
  assumes drop: "\<And>s. \<exists>message. tryToSaveToDb cfg r s = (None, log_error cfg message s)"
    and below: "objectsInTransaction s < maxObjectsInTransaction cfg"
    and f: "\<And>s1 t1. same_but_errors s1 t1 \<Longrightarrow> same_outcome (f s1) (f t1)"
  shows "same_outcome (and_then (writable_write cfg r) (runInTransaction cfg f) s)
     (runInTransaction cfg f s)"
proof -
  have open_case: "\<exists>message. writable_write cfg r u = (None, log_error cfg message u)"
    if "inTransaction u" and "objectsInTransaction u < maxObjectsInTransaction cfg" for u
  proof -
    obtain message where m: "tryToSaveToDb cfg r u = (None, log_error cfg message u)"
      using drop by blast
    have "objectsInTransaction (log_error cfg message u) < maxObjectsInTransaction cfg"
      using that(2) by (simp add: log_error_def)
    then have "writable_write cfg r u = (None, log_error cfg message u)"
      by (simp add: writable_write_def runInTransaction_phases and_then_def
          begin_if_idle_open [OF that(1)] m commit_if_full_below)
    then show ?thesis by blast
  qed
  show ?thesis
  proof (cases "inTransaction s")
    case True
    obtain message where w: "writable_write cfg r s = (None, log_error cfg message s)"
      using open_case [OF True below] by blast
    have "same_outcome (runInTransaction cfg f (log_error cfg message s))
        (runInTransaction cfg f s)"
      by (rule runInTransaction_same) (simp_all add: f log_error_same)
    then show ?thesis by (simp add: and_then_def w)
  next
    case False
    show ?thesis
    proof (cases "exec (db cfg) ''BEGIN TRANSACTION'' (store s)")
      case (Inl err)
      show ?thesis
        by (simp add: writable_write_def runInTransaction_phases and_then_def
            begin_if_idle_fails [OF False Inl] same_outcome_def same_but_errors_refl)
    next
      case (Inr d)
      define u where "u = (log_debug cfg ''Beginning transaction...'' s)
        \<lparr>inTransaction := True, store := d, executed := executed s @ [''BEGIN TRANSACTION'']\<rparr>"
      have b: "begin_if_idle cfg s = (None, u)"
        unfolding u_def by (rule begin_if_idle_ok [OF False Inr])
      have u1: "inTransaction u" by (simp add: u_def)
      have u2: "objectsInTransaction u < maxObjectsInTransaction cfg"
        using below by (simp add: u_def log_debug_def)
      have shift: "runInTransaction cfg h s = runInTransaction cfg h u" for h
        by (simp add: runInTransaction_phases and_then_def b begin_if_idle_open [OF u1])
      obtain message where "writable_write cfg r u = (None, log_error cfg message u)"
        using open_case [OF u1 u2] by blast
      then have w: "writable_write cfg r s = (None, log_error cfg message u)"
        using shift [of "tryToSaveToDb cfg r"] by (simp add: writable_write_def)
      have "same_outcome (runInTransaction cfg f (log_error cfg message u))
          (runInTransaction cfg f u)"
        by (rule runInTransaction_same) (simp_all add: f log_error_same)
      then show ?thesis by (simp add: and_then_def w shift [of f])
    qed
  qed
qed

section \<open>The invariant of the transaction progress\<close>

lemma runInTransaction_sound:
  assumes "keeps_transaction f" and "sound s"
  shows "sound (snd (runInTransaction cfg f s))"
proof -
  have f: "\<exists>s2. f s1 = (None, s2) \<and> inTransaction s2 = inTransaction s1
      \<and> objectsInTransaction s1 \<le> objectsInTransaction s2" for s1
    using assms(1) unfolding keeps_transaction_def by (metis prod.collapse)
  show ?thesis
  proof (cases "begin_if_idle cfg s")
    case (Pair a s1)
    show ?thesis
    proof (cases a)
      case (Some err)
      then have "sound s1"
        using Pair assms(2)
        by (auto simp add: begin_if_idle_def and_then_def db_exec_def log_debug_def sound_def
            split: if_splits sum.splits)
      then show ?thesis using Pair Some by (simp add: runInTransaction_phases and_then_def)
    next
      case None
      then have s1: "inTransaction s1 \<and> 0 \<le> objectsInTransaction s1"
        using Pair assms(2)
        by (auto simp add: begin_if_idle_def and_then_def db_exec_def log_debug_def sound_def
            split: if_splits sum.splits)
      obtain s2 where s2: "f s1 = (None, s2)" "inTransaction s2"
          "0 \<le> objectsInTransaction s2"
        using f [of s1] s1 by auto
      have "sound (snd (commit_if_full cfg s2))"
        using s2(2,3)
        by (auto simp add: commit_if_full_def and_then_def db_exec_def log_debug_def sound_def
            split: if_splits sum.splits)
      then show ?thesis
        using Pair None s2(1) by (simp add: runInTransaction_phases and_then_def)
    qed
  qed
qed

lemma writable_final_sound: "sound s \<Longrightarrow> sound (snd (writable_final cfg s))"
  by (auto simp add: writable_final_def and_then_def db_exec_def log_debug_def sound_def
      split: if_splits sum.splits)

lemma reachable_sound: "reachable cfg s \<Longrightarrow> sound s"
proof (induction rule: reachable.induct)
  case (reachable_new d)
  show ?case by (simp add: sound_def new_sink_def)
next
  case (reachable_step s r s')
  from reachable_step.hyps(2) show ?case
  proof (cases rule: sink_step.cases)
    case (step_write chunk)
    then show ?thesis
      using runInTransaction_sound [OF keeps_tryToSaveToDb reachable_step.IH, of cfg cfg chunk]
      by (simp add: writable_write_def) (metis snd_conv)
  next
    case (step_writev chunks)
    then show ?thesis
      using runInTransaction_sound [OF keeps_save_chunks reachable_step.IH, of cfg cfg chunks]
      by (simp add: writable_writev_def) (metis snd_conv)
  next
    case step_final
    then show ?thesis
      using writable_final_sound [OF reachable_step.IH, of cfg] by (metis snd_conv)
  qed
qed

lemma runInTransaction_commit_resets:
  assumes "keeps_transaction f" and "runInTransaction cfg f s = (None, s')"
    and "committed s s'"
  shows "\<not> inTransaction s' \<and> objectsInTransaction s' = 0"
proof -
  obtain s1 where b: "begin_if_idle cfg s = (None, s1)"
    using assms(2)
    by (cases "begin_if_idle cfg s")
      (auto simp add: runInTransaction_phases and_then_def split: option.splits)
  have e1: "executed s1 = executed s \<or> executed s1 = executed s @ [''BEGIN TRANSACTION'']"
    using b
    by (auto simp add: begin_if_idle_def and_then_def db_exec_def log_debug_def
        split: if_splits sum.splits)
  obtain s2 where s2: "f s1 = (None, s2)" "executed s2 = executed s1"
    using assms(1) unfolding keeps_transaction_def by (metis prod.collapse)
  have c: "commit_if_full cfg s2 = (None, s')"
    using assms(2) b s2(1) by (simp add: runInTransaction_phases and_then_def)
  show ?thesis
  proof (cases "maxObjectsInTransaction cfg \<le> objectsInTransaction s2")
    case True
    then show ?thesis
      using c
      by (auto simp add: commit_if_full_def and_then_def db_exec_def log_debug_def
          split: if_splits sum.splits)
  next
    case False
    then have "s' = s2" using c by (simp add: commit_if_full_def)
    then have "executed s' = executed s \<or> executed s' = executed s @ [''BEGIN TRANSACTION'']"
      using e1 s2(2) by simp
    then show ?thesis using assms(3) by (auto simp add: committed_def)
  qed
qed

section \<open>Groups of records that are all dropped, or all saved\<close>

lemma malformed_chunks_dropped:
  "\<forall>r\<in>set rs. malformed cfg r \<Longrightarrow>
   \<exists>s'. save_chunks cfg rs s = (None, s') \<and> same_but_errors s' s"
proof (induction rs arbitrary: s)
  case Nil
  show ?case by (simp add: same_but_errors_refl)
next
  case (Cons r rs)
  obtain message where m: "tryToSaveToDb cfg r s = (None, log_error cfg message s)"
    using malformed_dropped [of cfg r s] Cons.prems by auto
  obtain s' where s': "save_chunks cfg rs (log_error cfg message s) = (None, s')"
      "same_but_errors s' (log_error cfg message s)"
    using Cons.IH [of "log_error cfg message s"] Cons.prems by auto
  have "same_but_errors s' s"
    using s'(2) log_error_same same_but_errors_trans by blast
  then show ?case using s'(1) by (simp add: and_then_def m)
qed

lemma accept_saved:
  assumes "accept cfg r (store s) = Some d"
  shows "tryToSaveToDb cfg r s
     = (None, s\<lparr>store := d, objectsInTransaction := objectsInTransaction s + 1\<rparr>)"
proof -
  have wf: "typeof r = TObject" "r \<noteq> JNull" "typeof (Reflect_get r TYPE_FIELD) = TString"
      "string_of (Reflect_get r TYPE_FIELD) \<noteq> []"
    using assms by (simp_all add: accept_def split: if_splits)
  obtain ser where ser: "serializersByType cfg (string_of (Reflect_get r TYPE_FIELD)) = Some ser"
    and d: "serialize ser r (store s) = Inr d"
    using assms wf by (auto simp add: accept_def split: option.splits sum.splits)
  have "truthy (Reflect_get r TYPE_FIELD)"
    using wf(3,4) by (cases "Reflect_get r TYPE_FIELD") simp_all
  then show ?thesis
    using wf ser d by (simp add: tryToSaveToDb_def Let_def)
qed

lemma accept_all_saved:
  "accept_all cfg rs (store s) = Some d \<Longrightarrow>
   \<exists>s'. save_chunks cfg rs s = (None, s') \<and> store s' = d
     \<and> objectsInTransaction s' = objectsInTransaction s + int (length rs)
     \<and> inTransaction s' = inTransaction s \<and> executed s' = executed s
     \<and> debugMessages s' = debugMessages s \<and> errorMessages s' = errorMessages s"
proof (induction rs arbitrary: s)
  case Nil
  then show ?case by simp
next
  case (Cons r rs)
  obtain d1 where d1: "accept cfg r (store s) = Some d1" "accept_all cfg rs d1 = Some d"
    using Cons.prems by (auto split: option.splits)
  let ?u = "s\<lparr>store := d1, objectsInTransaction := objectsInTransaction s + 1\<rparr>"
  have t: "tryToSaveToDb cfg r s = (None, ?u)" by (rule accept_saved [OF d1(1)])
  have "accept_all cfg rs (store ?u) = Some d" using d1(2) by simp
  from Cons.IH [OF this] show ?case by (auto simp add: and_then_def t)
qed

section \<open>Records written one at a time\<close>

lemma concat_replicate_Suc_end:
  "concat (replicate (Suc k) xs) = concat (replicate k xs) @ xs"
  by (induction k) simp_all

lemma write_each_append:
  "write_each cfg (xs @ ys) s = and_then (write_each cfg xs) (write_each cfg ys) s"
proof (induction xs arbitrary: s)
  case Nil
  show ?case by (simp add: and_then_def)
next
  case (Cons r rs)
  show ?case
    using Cons.IH by (cases "writable_write cfg r s") (simp add: and_then_def split: option.splits)
qed

lemma single_writes_append:
  assumes T: "maxObjectsInTransaction cfg = int T" "0 < T"
  shows "c < T \<Longrightarrow> single_writes cfg c (xs @ ys) d =
    (case single_writes cfg c xs d of
       None \<Rightarrow> None
     | Some d' \<Rightarrow> single_writes cfg ((c + length xs) mod T) ys d')"
proof (induction xs arbitrary: c d)
  case Nil
  then show ?case by simp
next
  case (Cons x xs)
  show ?case
  proof (cases "if c = 0 then exec (db cfg) ''BEGIN TRANSACTION'' d else Inr d")
    case (Inl err)
    then show ?thesis by simp
  next
    case (Inr d1)
    show ?thesis
    proof (cases "accept cfg x d1")
      case None
      then show ?thesis using Inr by simp
    next
      case (Some d2)
      show ?thesis
      proof (cases "Suc c = T")
        case True
        have full: "maxObjectsInTransaction cfg \<le> int c + 1" using True T(1) by simp
        have "c + length (x # xs) = T + length xs" using True by simp
        then have m: "(c + length (x # xs)) mod T = (0 + length xs) mod T"
          by (simp only: mod_add_self1 add_0)
        show ?thesis
        proof (cases "exec (db cfg) ''COMMIT'' d2")
          case (Inl err)
          then show ?thesis using Inr Some full by simp
        next
          case (Inr d3)
          have "single_writes cfg c ((x # xs) @ ys) d = single_writes cfg 0 (xs @ ys) d3"
            using \<open>(if c = 0 then exec (db cfg) ''BEGIN TRANSACTION'' d else Inr d) = Inr d1\<close>
              Some full Inr by simp
          moreover have "single_writes cfg c (x # xs) d = single_writes cfg 0 xs d3"
            using \<open>(if c = 0 then exec (db cfg) ''BEGIN TRANSACTION'' d else Inr d) = Inr d1\<close>
              Some full Inr by simp
          ultimately show ?thesis
            using Cons.IH [OF T(2), of d3] by (simp only: m)
        qed
      next
        case False
        then have lt: "Suc c < T" using Cons.prems by simp
        have full: "\<not> maxObjectsInTransaction cfg \<le> int c + 1" using lt T(1) by simp
        have m: "c + length (x # xs) = Suc c + length xs" by simp
        have "single_writes cfg c ((x # xs) @ ys) d = single_writes cfg (Suc c) (xs @ ys) d2"
          using Inr Some full by simp
        moreover have "single_writes cfg c (x # xs) d = single_writes cfg (Suc c) xs d2"
          using Inr Some full by simp
        ultimately show ?thesis
          using Cons.IH [OF lt, of d2] by (simp only: m)
      qed
    qed
  qed
qed

lemma accepted_write:
  assumes T: "maxObjectsInTransaction cfg = int T"
    and s: "objectsInTransaction s = int m" "inTransaction s = (m \<noteq> 0)"
    and run: "single_writes cfg m [r] (store s) = Some d"
  shows "\<exists>s'. writable_write cfg r s = (None, s') \<and> store s' = d
     \<and> objectsInTransaction s' = (if T \<le> Suc m then 0 else int (Suc m))
     \<and> inTransaction s' = (\<not> T \<le> Suc m)
     \<and> executed s' = executed s
         @ (if m = 0 then [''BEGIN TRANSACTION''] else [])
         @ (if T \<le> Suc m then [''COMMIT''] else [])
     \<and> debugMessages s' = debugMessages s
         @ logged cfg
            ((if m = 0 then [''Beginning transaction...''] else [])
             @ (if T \<le> Suc m
                then [''Committing transaction with '' @ show_int (int (Suc m)) @ '' objects...'']
                else []))
     \<and> errorMessages s' = errorMessages s"
proof -
  obtain da where da: "(if m = 0 then exec (db cfg) ''BEGIN TRANSACTION'' (store s)
      else Inr (store s)) = Inr da"
    using run by (auto split: sum.splits)
  obtain dr where dbb: "accept cfg r da = Some dr"
    using run da by (auto split: sum.splits option.splits)
  have rest: "(if T \<le> Suc m then
        (case exec (db cfg) ''COMMIT'' dr of Inl err \<Rightarrow> None | Inr d3 \<Rightarrow> Some d3)
      else Some dr) = Some d"
    using run da dbb T by (auto split: sum.splits option.splits if_splits)
  obtain u where b: "begin_if_idle cfg s = (None, u)" and u: "inTransaction u"
      "objectsInTransaction u = objectsInTransaction s" "store u = da"
      "executed u = executed s @ (if m = 0 then [''BEGIN TRANSACTION''] else [])"
      "debugMessages u = debugMessages s
         @ logged cfg (if m = 0 then [''Beginning transaction...''] else [])"
      "errorMessages u = errorMessages s"
  proof (cases "m = 0")
    case True
    then have n: "\<not> inTransaction s" and e: "exec (db cfg) ''BEGIN TRANSACTION'' (store s) = Inr da"
      using s(2) da by simp_all
    show ?thesis
      using that [OF begin_if_idle_ok [OF n e]] True
      by (simp add: log_debug_def logged_def)
  next
    case False
    then have "inTransaction s" and "da = store s" using s(2) da by simp_all
    then show ?thesis using that [of s] False by (simp add: begin_if_idle_open logged_def)
  qed
  define v where "v = u\<lparr>store := dr, objectsInTransaction := objectsInTransaction u + 1\<rparr>"
  have t: "tryToSaveToDb cfg r u = (None, v)"
    unfolding v_def using dbb u(3) by (intro accept_saved) simp
  have w: "writable_write cfg r s = commit_if_full cfg v"
    by (simp add: writable_write_def runInTransaction_phases and_then_def b t)
  have cv: "objectsInTransaction v = int (Suc m)" using u(2) s(1) by (simp add: v_def)
  show ?thesis
  proof (cases "T \<le> Suc m")
    case True
    then obtain d3 where d3: "exec (db cfg) ''COMMIT'' dr = Inr d3" and dd: "d3 = d"
      using rest by (auto split: sum.splits)
    have "maxObjectsInTransaction cfg \<le> objectsInTransaction v" using True T cv by simp
    moreover have "exec (db cfg) ''COMMIT'' (store v) = Inr d" using d3 dd by (simp add: v_def)
    ultimately have "commit_if_full cfg v =
     (None, (log_debug cfg
        (''Committing transaction with '' @ show_int (objectsInTransaction v) @ '' objects...'') v)
        \<lparr>inTransaction := False, objectsInTransaction := 0, store := d,
          executed := executed v @ [''COMMIT'']\<rparr>)"
      by (rule commit_if_full_ok)
    then show ?thesis
      using True u cv by (simp add: w v_def log_debug_def logged_def add.commute)
  next
    case False
    then have "objectsInTransaction v < maxObjectsInTransaction cfg" using T cv by simp
    from commit_if_full_below [OF this] show ?thesis
      using False u rest s(1) by (simp add: w v_def)
  qed
qed

lemma write_each_progress:
  assumes T: "maxObjectsInTransaction cfg = int T" "0 < T"
    and idle: "\<not> inTransaction s" "objectsInTransaction s = 0"
  shows "single_writes cfg 0 rs (store s) = Some d \<Longrightarrow>
    \<exists>s1. write_each cfg rs s = (None, s1) \<and> store s1 = d
      \<and> objectsInTransaction s1 = int (length rs mod T)
      \<and> inTransaction s1 = (length rs mod T \<noteq> 0)
      \<and> executed s1 = executed s
          @ concat (replicate (length rs div T) [''BEGIN TRANSACTION'', ''COMMIT''])
          @ (if length rs mod T = 0 then [] else [''BEGIN TRANSACTION''])
      \<and> debugMessages s1 = debugMessages s
          @ logged cfg
             (concat (replicate (length rs div T)
                [''Beginning transaction...'',
                 ''Committing transaction with '' @ show_int (int T) @ '' objects...''])
              @ (if length rs mod T = 0 then [] else [''Beginning transaction...'']))
      \<and> errorMessages s1 = errorMessages s"
proof (induction rs arbitrary: d rule: rev_induct)
  case Nil
  then show ?case using idle by (simp add: logged_def)
next
  case (snoc x rs)
  let ?N = "length rs"
  let ?m = "?N mod T"
  let ?BC = "[''BEGIN TRANSACTION'', ''COMMIT'']"
  let ?D = "[''Beginning transaction...'',
     ''Committing transaction with '' @ show_int (int T) @ '' objects...'']"
  have less: "?m < T" using T(2) by simp
  obtain d' where d': "single_writes cfg 0 rs (store s) = Some d'"
      "single_writes cfg ?m [x] d' = Some d"
    using snoc.prems single_writes_append [OF T, of 0 rs "[x]" "store s"] T(2)
    by (auto split: option.splits)
  obtain s1 where s1: "write_each cfg rs s = (None, s1)" "store s1 = d'"
      "objectsInTransaction s1 = int ?m" "inTransaction s1 = (?m \<noteq> 0)"
      "executed s1 = executed s @ concat (replicate (?N div T) ?BC)
          @ (if ?m = 0 then [] else [''BEGIN TRANSACTION''])"
      "debugMessages s1 = debugMessages s
          @ logged cfg (concat (replicate (?N div T) ?D)
              @ (if ?m = 0 then [] else [''Beginning transaction...'']))"
      "errorMessages s1 = errorMessages s"
    using snoc.IH [OF d'(1)] by blast
  have run: "single_writes cfg ?m [x] (store s1) = Some d" using d'(2) s1(2) by simp
  obtain s2 where s2: "writable_write cfg x s1 = (None, s2)" "store s2 = d"
      "objectsInTransaction s2 = (if T \<le> Suc ?m then 0 else int (Suc ?m))"
      "inTransaction s2 = (\<not> T \<le> Suc ?m)"
      "executed s2 = executed s1
         @ (if ?m = 0 then [''BEGIN TRANSACTION''] else [])
         @ (if T \<le> Suc ?m then [''COMMIT''] else [])"
      "debugMessages s2 = debugMessages s1
         @ logged cfg
            ((if ?m = 0 then [''Beginning transaction...''] else [])
             @ (if T \<le> Suc ?m
                then [''Committing transaction with '' @ show_int (int (Suc ?m)) @ '' objects...'']
                else []))"
      "errorMessages s2 = errorMessages s1"
    using accepted_write [OF T(1) s1(3,4) run] by blast
  have w: "write_each cfg (rs @ [x]) s = (None, s2)"
    by (simp add: write_each_append and_then_def s1(1) s2(1))
  have full: "(T \<le> Suc ?m) = (Suc ?m = T)" using less by auto
  have len: "length (rs @ [x]) = Suc ?N" by simp
  show ?case
  proof (cases "Suc ?m = T")
    case True
    have m: "Suc ?N mod T = 0" using True by (simp add: mod_Suc)
    have dv: "Suc ?N div T = Suc (?N div T)" using m by (simp add: div_Suc)
    have e: "executed s2 = executed s @ concat (replicate (Suc (?N div T)) ?BC)"
      unfolding concat_replicate_Suc_end using True by (simp add: s2(5) s1(5) full)
    have g: "debugMessages s2 = debugMessages s @ logged cfg (concat (replicate (Suc (?N div T)) ?D))"
      unfolding concat_replicate_Suc_end
      using True by (simp add: s2(6) s1(6) full logged_def)
    show ?thesis
      unfolding len m dv using True
      by (simp add: w s2(2,3,4,7) s1(7) full e g del: replicate.simps)
  next
    case False
    have m: "Suc ?N mod T = Suc ?m" using False by (simp add: mod_Suc)
    have dv: "Suc ?N div T = ?N div T" using m by (simp add: div_Suc)
    have e: "executed s2 = executed s @ concat (replicate (?N div T) ?BC) @ [''BEGIN TRANSACTION'']"
      using False by (simp add: s2(5) s1(5) full)
    have g: "debugMessages s2 = debugMessages s
        @ logged cfg (concat (replicate (?N div T) ?D) @ [''Beginning transaction...''])"
      using False by (simp add: s2(6) s1(6) full logged_def)
    show ?thesis
      unfolding len m dv using False
      by (simp add: w s2(2,3,4,7) s1(7) full e g)
  qed
qed

section \<open>A group above the threshold (C1)\<close>

text \<open>
  C1, as stated, fails: with a threshold of two, the group of the three bears is committed by
  the \<open>COMMIT\<close> that \<open>_writev\<close> itself issues once the group has been processed, logged as
  a commit of three objects, and the \<open>_final\<close> that follows finds nothing pending and
  commits nothing.
\<close>

theorem grouped_delivery_counterexample:
  "writable_writev (test_settings 2) [yogi, bubu, bozo] (new_sink []) = (None, three_bears_committed)
   \<and> executed three_bears_committed = [''BEGIN TRANSACTION'', ''COMMIT'']
   \<and> debugMessages three_bears_committed
       = [''Beginning transaction...'', ''Committing transaction with 3 objects...'']
   \<and> writable_final (test_settings 2) three_bears_committed = (None, three_bears_committed)"
  by (simp add: writable_writev_def writable_final_def runInTransaction_def and_then_def
      tryToSaveToDb_def Let_def TYPE_FIELD_def log_debug_def db_exec_def test_settings_def
      test_database_def new_sink_def yogi_def bubu_def bozo_def three_bears_committed_def
      serialize_def bear_mapper_def insert_row_def show_int_def show_nat.simps)

text \<open>
  C1, amended. A group of M records, with M above the threshold, delivered to a sink with
  no open transaction and nothing pending, where the database accepts
  \<open>BEGIN TRANSACTION\<close>, then the statement of each record of the group in turn, then
  \<open>COMMIT\<close>: the group is processed under one \<open>BEGIN TRANSACTION\<close> and committed by one
  \<open>COMMIT\<close>, of all M records, issued by the delivery itself once the whole group has been
  processed; nothing else is handed to the database, so the group is not split, and the
  database holds what that \<open>COMMIT\<close> left. The \<open>_final\<close> that follows finds nothing pending
  and changes nothing.
\<close>

theorem grouped_delivery_commits_at_its_end:
  assumes "\<not> inTransaction s" and "objectsInTransaction s = 0"
    and "maxObjectsInTransaction cfg < int (length rs)"
    and "exec (db cfg) ''BEGIN TRANSACTION'' (store s) = Inr d0"
    and "accept_all cfg rs d0 = Some d1"
    and "exec (db cfg) ''COMMIT'' d1 = Inr d2"
  shows "\<exists>s'. writable_writev cfg rs s = (None, s')
     \<and> executed s' = executed s @ [''BEGIN TRANSACTION'', ''COMMIT'']
     \<and> debugMessages s' = debugMessages s @ logged cfg
          [''Beginning transaction...'',
           ''Committing transaction with '' @ show_int (int (length rs)) @ '' objects...'']
     \<and> errorMessages s' = errorMessages s
     \<and> store s' = d2
     \<and> \<not> inTransaction s' \<and> objectsInTransaction s' = 0
     \<and> writable_final cfg s' = (None, s')"
proof -
  define u where "u = (log_debug cfg ''Beginning transaction...'' s)
    \<lparr>inTransaction := True, store := d0, executed := executed s @ [''BEGIN TRANSACTION'']\<rparr>"
  have b: "begin_if_idle cfg s = (None, u)"
    unfolding u_def by (rule begin_if_idle_ok [OF assms(1,4)])
  have "accept_all cfg rs (store u) = Some d1" using assms(5) by (simp add: u_def)
  then obtain v where v: "save_chunks cfg rs u = (None, v)" "store v = d1"
      "objectsInTransaction v = objectsInTransaction u + int (length rs)"
      "inTransaction v = inTransaction u" "executed v = executed u"
      "debugMessages v = debugMessages u" "errorMessages v = errorMessages u"
    using accept_all_saved [of cfg rs u d1] by blast
  have cnt: "objectsInTransaction v = int (length rs)"
    using v(3) assms(2) by (simp add: u_def log_debug_def)
  have d': "exec (db cfg) ''COMMIT'' (store v) = Inr d2" using assms(6) v(2) by simp
  define w where "w = (log_debug cfg
      (''Committing transaction with '' @ show_int (objectsInTransaction v) @ '' objects...'') v)
      \<lparr>inTransaction := False, objectsInTransaction := 0, store := d2,
        executed := executed v @ [''COMMIT'']\<rparr>"
  have c: "commit_if_full cfg v = (None, w)"
    unfolding w_def using assms(3) cnt by (intro commit_if_full_ok d') simp
  have run: "writable_writev cfg rs s = (None, w)"
    by (simp add: writable_writev_def runInTransaction_phases and_then_def b v(1) c)
  have "executed w = executed s @ [''BEGIN TRANSACTION'', ''COMMIT'']"
    by (simp add: w_def v(5) u_def log_debug_def)
  moreover have "debugMessages w = debugMessages s @ logged cfg
          [''Beginning transaction...'',
           ''Committing transaction with '' @ show_int (int (length rs)) @ '' objects...'']"
    by (simp add: w_def v(6) u_def cnt log_debug_def logged_def)
  moreover have "errorMessages w = errorMessages s"
    by (simp add: w_def v(7) u_def log_debug_def)
  moreover have "store w = d2" by (simp add: w_def)
  moreover have "\<not> inTransaction w \<and> objectsInTransaction w = 0"
    by (simp add: w_def log_debug_def)
  moreover have "writable_final cfg w = (None, w)"
    by (simp add: writable_final_def w_def log_debug_def)
  ultimately show ?thesis using run by blast
qed

theorem grouped_delivery_commits_at_its_end_witness:
  "\<not> inTransaction (new_sink ([] :: test_db))
   \<and> objectsInTransaction (new_sink ([] :: test_db)) = 0
   \<and> maxObjectsInTransaction (test_settings 2) < int (length [yogi, bubu, bozo])
   \<and> exec (db (test_settings 2)) ''BEGIN TRANSACTION'' (store (new_sink [])) = Inr []
   \<and> accept_all (test_settings 2) [yogi, bubu, bozo] []
       = Some [(''bears'', [JStr ''Yogi'', JNum 36]), (''bears'', [JStr ''Bubu'', JNum 34]),
               (''bears'', [JStr ''Bozo'', JNum 31])]
   \<and> exec (db (test_settings 2)) ''COMMIT''
        [(''bears'', [JStr ''Yogi'', JNum 36]), (''bears'', [JStr ''Bubu'', JNum 34]),
         (''bears'', [JStr ''Bozo'', JNum 31])]
       = Inr [(''bears'', [JStr ''Yogi'', JNum 36]), (''bears'', [JStr ''Bubu'', JNum 34]),
              (''bears'', [JStr ''Bozo'', JNum 31])]
   \<and> (\<exists>s'. writable_writev (test_settings 2) [yogi, bubu, bozo] (new_sink []) = (None, s')
        \<and> executed s' = executed (new_sink ([] :: test_db)) @ [''BEGIN TRANSACTION'', ''COMMIT'']
        \<and> debugMessages s' = debugMessages (new_sink ([] :: test_db))
             @ logged (test_settings 2)
                 [''Beginning transaction...'',
                  ''Committing transaction with '' @ show_int (int (length [yogi, bubu, bozo]))
                     @ '' objects...'']
        \<and> errorMessages s' = errorMessages (new_sink ([] :: test_db))
        \<and> store s' = [(''bears'', [JStr ''Yogi'', JNum 36]), (''bears'', [JStr ''Bubu'', JNum 34]),
                       (''bears'', [JStr ''Bozo'', JNum 31])]
        \<and> \<not> inTransaction s' \<and> objectsInTransaction s' = 0
        \<and> writable_final (test_settings 2) s' = (None, s'))"
proof -
  let ?rows = "[(''bears'', [JStr ''Yogi'', JNum 36]), (''bears'', [JStr ''Bubu'', JNum 34]),
    (''bears'', [JStr ''Bozo'', JNum 31])]"
  have h1: "\<not> inTransaction (new_sink ([] :: test_db))"
    and h2: "objectsInTransaction (new_sink ([] :: test_db)) = 0"
    by (simp_all add: new_sink_def)
  have h3: "maxObjectsInTransaction (test_settings 2) < int (length [yogi, bubu, bozo])"
    by (simp add: test_settings_def)
  have h4: "exec (db (test_settings 2)) ''BEGIN TRANSACTION'' (store (new_sink [])) = Inr []"
    by (simp add: test_settings_def test_database_def new_sink_def)
  have h5: "accept_all (test_settings 2) [yogi, bubu, bozo] [] = Some ?rows"
    by (simp add: accept_def test_settings_def yogi_def bubu_def bozo_def TYPE_FIELD_def
        serialize_def bear_mapper_def insert_row_def)
  have h6: "exec (db (test_settings 2)) ''COMMIT'' ?rows = Inr ?rows"
    by (simp add: test_settings_def test_database_def)
  show ?thesis
    using grouped_delivery_commits_at_its_end [OF h1 h2 h3 h4 h5 h6] h1 h2 h3 h4 h5 h6
    by blast
qed

section \<open>Records written one at a time (C2)\<close>

text \<open>
  C2. N records written one at a time to a sink with threshold T, no open transaction and
  nothing pending, and then flushed, where the database accepts every statement it is handed
  on the way: the statements handed to the database are N div T pairs of
  \<open>BEGIN TRANSACTION\<close> and \<open>COMMIT\<close>, each commit logged as one of exactly T objects,
  followed, when N is not a multiple of T, by one more \<open>BEGIN TRANSACTION\<close> and the
  \<open>COMMIT\<close> of the flush, logged as a final commit of N mod T objects, and by nothing when it
  is. So there are as many \<open>BEGIN TRANSACTION\<close> as commits, each commit right after its own.
  Neither the writes nor the flush throw, nothing is logged as an error, and the database
  holds what the statements left.
\<close>

theorem single_writes_are_quantized:
  assumes "maxObjectsInTransaction cfg = int T" and "0 < T"
    and "\<not> inTransaction s" and "objectsInTransaction s = 0"
    and "single_writes cfg 0 rs (store s) = Some d1"
    and "final_commit cfg (length rs mod T) d1 = Some d2"
  shows "\<exists>s1 s2. write_each cfg rs s = (None, s1) \<and> writable_final cfg s1 = (None, s2)
     \<and> executed s2 = executed s
          @ concat (replicate (length rs div T) [''BEGIN TRANSACTION'', ''COMMIT''])
          @ (if length rs mod T = 0 then [] else [''BEGIN TRANSACTION'', ''COMMIT''])
     \<and> debugMessages s2 = debugMessages s
          @ logged cfg
             (concat (replicate (length rs div T)
                [''Beginning transaction...'',
                 ''Committing transaction with '' @ show_int (int T) @ '' objects...''])
              @ (if length rs mod T = 0 then []
                 else [''Beginning transaction...'',
                       ''Final commit with '' @ show_int (int (length rs mod T))
                          @ '' objects...'']))
     \<and> errorMessages s2 = errorMessages s
     \<and> store s1 = d1 \<and> store s2 = d2
     \<and> \<not> inTransaction s2 \<and> objectsInTransaction s2 = 0"
proof -
  let ?N = "length rs"
  let ?m = "?N mod T"
  let ?BC = "[''BEGIN TRANSACTION'', ''COMMIT'']"
  let ?D = "[''Beginning transaction...'',
     ''Committing transaction with '' @ show_int (int T) @ '' objects...'']"
  obtain s1 where s1: "write_each cfg rs s = (None, s1)" "store s1 = d1"
      "objectsInTransaction s1 = int ?m" "inTransaction s1 = (?m \<noteq> 0)"
      "executed s1 = executed s @ concat (replicate (?N div T) ?BC)
          @ (if ?m = 0 then [] else [''BEGIN TRANSACTION''])"
      "debugMessages s1 = debugMessages s
          @ logged cfg (concat (replicate (?N div T) ?D)
              @ (if ?m = 0 then [] else [''Beginning transaction...'']))"
      "errorMessages s1 = errorMessages s"
    using write_each_progress [OF assms(1,2,3,4,5)] by blast
  show ?thesis
  proof (cases "?m = 0")
    case True
    then have "writable_final cfg s1 = (None, s1)"
      using s1(3) by (simp add: writable_final_def)
    moreover have "d2 = d1" using assms(6) True by (simp add: final_commit_def)
    ultimately show ?thesis using s1 True by auto
  next
    case False
    have d: "exec (db cfg) ''COMMIT'' (store s1) = Inr d2"
      using assms(6) False s1(2) by (simp add: final_commit_def split: sum.splits)
    define s2 where "s2 = (log_debug cfg
        (''Final commit with '' @ show_int (objectsInTransaction s1) @ '' objects...'') s1)
        \<lparr>inTransaction := False, objectsInTransaction := 0, store := d2,
          executed := executed s1 @ [''COMMIT'']\<rparr>"
    have f: "writable_final cfg s1 = (None, s2)"
      using False s1(3) d
      by (simp add: writable_final_def and_then_def db_exec_def log_debug_def s2_def)
    have "executed s2 = executed s @ concat (replicate (?N div T) ?BC) @ ?BC"
      using False by (simp add: s2_def s1(5) log_debug_def)
    moreover have "debugMessages s2 = debugMessages s
          @ logged cfg (concat (replicate (?N div T) ?D)
              @ [''Beginning transaction...'',
                 ''Final commit with '' @ show_int (int ?m) @ '' objects...''])"
      using False by (simp add: s2_def s1(3,6) log_debug_def logged_def)
    moreover have "errorMessages s2 = errorMessages s"
      by (simp add: s2_def s1(7) log_debug_def)
    moreover have "store s2 = d2" by (simp add: s2_def)
    moreover have "\<not> inTransaction s2 \<and> objectsInTransaction s2 = 0"
      by (simp add: s2_def log_debug_def)
    ultimately show ?thesis using s1(1,2) f False by auto
  qed
qed

theorem single_writes_are_quantized_witness:
  "maxObjectsInTransaction (test_settings 2) = int 2 \<and> (0 :: nat) < 2
   \<and> \<not> inTransaction (new_sink ([] :: test_db))
   \<and> objectsInTransaction (new_sink ([] :: test_db)) = 0
   \<and> single_writes (test_settings 2) 0 [yogi, bubu, bozo] (store (new_sink []))
       = Some [(''bears'', [JStr ''Yogi'', JNum 36]), (''bears'', [JStr ''Bubu'', JNum 34]),
               (''bears'', [JStr ''Bozo'', JNum 31])]
   \<and> final_commit (test_settings 2) (length [yogi, bubu, bozo] mod 2)
        [(''bears'', [JStr ''Yogi'', JNum 36]), (''bears'', [JStr ''Bubu'', JNum 34]),
         (''bears'', [JStr ''Bozo'', JNum 31])]
       = Some [(''bears'', [JStr ''Yogi'', JNum 36]), (''bears'', [JStr ''Bubu'', JNum 34]),
               (''bears'', [JStr ''Bozo'', JNum 31])]
   \<and> (\<exists>s1 s2. write_each (test_settings 2) [yogi, bubu, bozo] (new_sink []) = (None, s1)
        \<and> writable_final (test_settings 2) s1 = (None, s2)
        \<and> executed s2 = executed (new_sink ([] :: test_db))
            @ concat (replicate (length [yogi, bubu, bozo] div 2)
                [''BEGIN TRANSACTION'', ''COMMIT''])
            @ (if length [yogi, bubu, bozo] mod 2 = 0 then []
               else [''BEGIN TRANSACTION'', ''COMMIT''])
        \<and> debugMessages s2 = debugMessages (new_sink ([] :: test_db))
            @ logged (test_settings 2)
               (concat (replicate (length [yogi, bubu, bozo] div 2)
                  [''Beginning transaction...'',
                   ''Committing transaction with '' @ show_int (int 2) @ '' objects...''])
                @ (if length [yogi, bubu, bozo] mod 2 = 0 then []
                   else [''Beginning transaction...'',
                         ''Final commit with ''
                            @ show_int (int (length [yogi, bubu, bozo] mod 2))
                            @ '' objects...'']))
        \<and> errorMessages s2 = errorMessages (new_sink ([] :: test_db))
        \<and> store s1 = [(''bears'', [JStr ''Yogi'', JNum 36]), (''bears'', [JStr ''Bubu'', JNum 34]),
                       (''bears'', [JStr ''Bozo'', JNum 31])]
        \<and> store s2 = [(''bears'', [JStr ''Yogi'', JNum 36]), (''bears'', [JStr ''Bubu'', JNum 34]),
                       (''bears'', [JStr ''Bozo'', JNum 31])]
        \<and> \<not> inTransaction s2 \<and> objectsInTransaction s2 = 0)
   \<and> writable_final (test_settings 2)
        (snd (write_each (test_settings 2) [yogi, bubu, bozo] (new_sink [])))
       = (None, three_bears_written)"
proof -
  let ?rows = "[(''bears'', [JStr ''Yogi'', JNum 36]), (''bears'', [JStr ''Bubu'', JNum 34]),
    (''bears'', [JStr ''Bozo'', JNum 31])]"
  have h1: "maxObjectsInTransaction (test_settings 2) = int 2"
    by (simp add: test_settings_def)
  have h2: "(0 :: nat) < 2" by simp
  have h3: "\<not> inTransaction (new_sink ([] :: test_db))"
    and h4: "objectsInTransaction (new_sink ([] :: test_db)) = 0"
    by (simp_all add: new_sink_def)
  have h5: "single_writes (test_settings 2) 0 [yogi, bubu, bozo] (store (new_sink []))
      = Some ?rows"
    by (simp add: accept_def test_settings_def test_database_def new_sink_def yogi_def bubu_def
        bozo_def TYPE_FIELD_def serialize_def bear_mapper_def insert_row_def)
  have h6: "final_commit (test_settings 2) (length [yogi, bubu, bozo] mod 2) ?rows = Some ?rows"
    by (simp add: final_commit_def test_settings_def test_database_def)
  have v: "writable_final (test_settings 2)
        (snd (write_each (test_settings 2) [yogi, bubu, bozo] (new_sink [])))
       = (None, three_bears_written)"
    by (simp add: writable_write_def writable_final_def runInTransaction_def and_then_def
        tryToSaveToDb_def Let_def TYPE_FIELD_def log_debug_def db_exec_def
        test_settings_def test_database_def new_sink_def yogi_def bubu_def bozo_def
        three_bears_written_def serialize_def bear_mapper_def insert_row_def show_int_def
        show_nat.simps)
  show ?thesis
    using single_writes_are_quantized [OF h1 h2 h3 h4 h5 h6] h1 h2 h3 h4 h5 h6 v
    by blast
qed

section \<open>The invariant (C3)\<close>

text \<open>
  C3. Every state the sink reaches from a new sink, through any sequence of \<open>_write\<close>,
  \<open>_writev\<close> and \<open>_final\<close> calls, whether they return or throw, satisfies the invariant of
  the transaction progress: a positive count implies an open transaction, and no open
  transaction implies a count of zero. And an operation that returns after issuing a
  \<open>COMMIT\<close> leaves no open transaction and a count of zero.
\<close>

theorem progress_invariant_holds:
  "(reachable cfg s \<longrightarrow> progress_invariant s)
   \<and> (sink_step cfg s (None, s') \<and> committed s s' \<longrightarrow>
        \<not> inTransaction s' \<and> objectsInTransaction s' = 0)"
proof (rule conjI; rule impI)
  assume "reachable cfg s"
  then show "progress_invariant s"
    using reachable_sound by (fastforce simp add: sound_def progress_invariant_def)
next
  assume a: "sink_step cfg s (None, s') \<and> committed s s'"
  then have "sink_step cfg s (None, s')" and cm: "committed s s'" by simp_all
  then show "\<not> inTransaction s' \<and> objectsInTransaction s' = 0"
  proof (cases rule: sink_step.cases)
    case (step_write chunk)
    then show ?thesis
      using runInTransaction_commit_resets [OF keeps_tryToSaveToDb _ cm, of cfg cfg chunk]
      by (simp add: writable_write_def)
  next
    case (step_writev chunks)
    then show ?thesis
      using runInTransaction_commit_resets [OF keeps_save_chunks _ cm, of cfg cfg chunks]
      by (simp add: writable_writev_def)
  next
    case step_final
    then show ?thesis
      using cm
      by (auto simp add: writable_final_def committed_def and_then_def db_exec_def
          log_debug_def split: if_splits sum.splits)
  qed
qed

theorem progress_invariant_holds_witness:
  "reachable (test_settings 1000) yogi_pending \<and> progress_invariant yogi_pending
   \<and> sink_step (test_settings 1000) yogi_pending (None, yogi_flushed)
   \<and> committed yogi_pending yogi_flushed
   \<and> \<not> inTransaction yogi_flushed \<and> objectsInTransaction yogi_flushed = 0"
proof -
  have w: "writable_write (test_settings 1000) yogi (new_sink []) = (None, yogi_pending)"
    by (simp add: writable_write_def runInTransaction_def and_then_def tryToSaveToDb_def
        Let_def TYPE_FIELD_def log_debug_def db_exec_def test_settings_def test_database_def
        new_sink_def yogi_def yogi_pending_def serialize_def bear_mapper_def insert_row_def)
  have "sink_step (test_settings 1000) (new_sink []) (None, yogi_pending)"
    using step_write [of "test_settings 1000" "new_sink []" yogi] by (simp add: w)
  then have r: "reachable (test_settings 1000) yogi_pending"
    by (rule reachable_step [OF reachable_new])
  have f: "writable_final (test_settings 1000) yogi_pending = (None, yogi_flushed)"
    by (simp add: writable_final_def and_then_def log_debug_def db_exec_def test_settings_def
        test_database_def yogi_pending_def yogi_flushed_def show_int_def show_nat.simps)
  have st: "sink_step (test_settings 1000) yogi_pending (None, yogi_flushed)"
    using step_final [of "test_settings 1000" yogi_pending] by (simp add: f)
  have cm: "committed yogi_pending yogi_flushed"
    by (simp add: committed_def yogi_pending_def yogi_flushed_def)
  show ?thesis
    using progress_invariant_holds [of "test_settings 1000" yogi_pending yogi_flushed] r st cm
    by simp
qed

section \<open>The threshold of the builder (C4)\<close>

text \<open>
  C4. When the threshold of the builder is zero or negative, \<open>build\<close> throws an \<open>Error\<close>
  whose message ends with that value, before any statement is handed to \<open>db.prepare\<close>
  and without producing a sink. When the threshold is positive the test does not throw:
  the outcome of \<open>build\<close> is the outcome of preparing the statements, the error of the
  first \<open>db.prepare\<close> that throws or else a sink with that threshold.
\<close>

theorem invalid_threshold_rejected:
  "(builder_maxObjectsInTransaction b \<le> 0 \<longrightarrow>
      build fmt b d =
        (Inl (JsError ''Error''
           (''Invalid max objects in transaction: ''
              @ show_int (builder_maxObjectsInTransaction b))), []))
   \<and> (0 < builder_maxObjectsInTransaction b \<longrightarrow>
        (case build_serializers d (serializerBlueprintsByType b) of
           (Inl err, prepared) \<Rightarrow> build fmt b d = (Inl err, prepared)
         | (Inr sers, prepared) \<Rightarrow>
             (\<exists>cfg. build fmt b d = (Inr cfg, prepared)
                \<and> maxObjectsInTransaction cfg = builder_maxObjectsInTransaction b
                \<and> serializersByType cfg = map_of sers)))"
  by (simp add: build_def split: prod.splits sum.splits)

theorem invalid_threshold_rejected_witness:
  "builder_maxObjectsInTransaction (withMaxObjectsInTransaction (- 7) test_builder) \<le> 0
   \<and> build test_formatError (withMaxObjectsInTransaction (- 7) test_builder) test_database
       = (Inl (JsError ''Error'' ''Invalid max objects in transaction: -7''), [])
   \<and> builder_maxObjectsInTransaction (withMaxObjectsInTransaction 0 test_builder) \<le> 0
   \<and> build test_formatError (withMaxObjectsInTransaction 0 test_builder) test_database
       = (Inl (JsError ''Error'' ''Invalid max objects in transaction: 0''), [])
   \<and> 0 < builder_maxObjectsInTransaction (withMaxObjectsInTransaction 2 test_builder)
   \<and> build test_formatError (withMaxObjectsInTransaction 2 test_builder) test_database
       = (Inr (test_settings 2),
          [''INSERT INTO bears (name, age) VALUES (?, ?)'',
           ''INSERT INTO chipmunks (name, gathered_nuts) VALUES (?, ?)''])"
  using invalid_threshold_rejected
      [of "withMaxObjectsInTransaction (- 7) test_builder" test_formatError test_database]
    invalid_threshold_rejected
      [of "withMaxObjectsInTransaction 0 test_builder" test_formatError test_database]
    invalid_threshold_rejected
      [of "withMaxObjectsInTransaction 2 test_builder" test_formatError test_database]
  by (simp add: build_def withMaxObjectsInTransaction_def test_builder_def withType_def
      withLogger_def new_builder_def test_database_def test_settings_def show_int_def
      show_nat.simps)

section \<open>Records that cannot be dispatched (C5)\<close>

text \<open>
  C5. A record that is not an object, or whose \<open>type\<close> is absent or not a string, or whose
  \<open>type\<close> is not registered, is processed by one call of the logger's \<open>error\<close> and nothing
  else: \<open>tryToSaveToDb\<close> returns without throwing, and the state it returns is the state it
  was given with that one message logged, so the count, the transaction and the database
  are as they were. The other records are saved as if the record were not there: a group
  with the record in any position has the same outcome, up to the error log, as the group
  without it, and a delivery of the record alone followed by another delivery, below the
  threshold, has the same outcome as that other delivery alone.
\<close>

theorem malformed_record_dropped:
  assumes "malformed cfg r"
  shows "(\<exists>message. tryToSaveToDb cfg r s = (None, log_error cfg message s)
            \<and> message \<in> {''Encountered non-object value'',
                ''Encountered object without the 'type' string field'',
                ''Unregistered type: '' @ [CHR 0x27] @ string_of (Reflect_get r TYPE_FIELD)
                   @ [CHR 0x27]}
            \<and> errorMessages (snd (tryToSaveToDb cfg r s))
                = errorMessages s @ logged cfg [message])
     \<and> objectsInTransaction (snd (tryToSaveToDb cfg r s)) = objectsInTransaction s
     \<and> inTransaction (snd (tryToSaveToDb cfg r s)) = inTransaction s
     \<and> store (snd (tryToSaveToDb cfg r s)) = store s
     \<and> executed (snd (tryToSaveToDb cfg r s)) = executed s
     \<and> same_outcome (writable_writev cfg (xs @ r # ys) s) (writable_writev cfg (xs @ ys) s)
     \<and> (objectsInTransaction s < maxObjectsInTransaction cfg \<longrightarrow>
          same_outcome (and_then (writable_write cfg r) (writable_write cfg y) s)
            (writable_write cfg y s)
          \<and> same_outcome (and_then (writable_write cfg r) (writable_writev cfg ys) s)
            (writable_writev cfg ys s))"
proof -
  have drop: "\<exists>message. tryToSaveToDb cfg r s = (None, log_error cfg message s)" for s
    using malformed_dropped [OF assms] by blast
  have group: "same_outcome (writable_writev cfg (xs @ r # ys) s)
      (writable_writev cfg (xs @ ys) s)"
    unfolding writable_writev_def
    by (rule runInTransaction_same) (simp_all add: save_chunks_skip [OF drop] same_but_errors_refl)
  have next_write: "same_outcome (and_then (writable_write cfg r) (writable_write cfg y) s)
      (writable_write cfg y s)"
    if "objectsInTransaction s < maxObjectsInTransaction cfg"
    unfolding writable_write_def [of cfg y]
    by (rule dropped_then_next [OF drop that]) (rule tryToSaveToDb_same)
  have next_writev: "same_outcome (and_then (writable_write cfg r) (writable_writev cfg ys) s)
      (writable_writev cfg ys s)"
    if "objectsInTransaction s < maxObjectsInTransaction cfg"
    unfolding writable_writev_def [of cfg ys]
    by (rule dropped_then_next [OF drop that]) (rule save_chunks_same)
  obtain message where m: "tryToSaveToDb cfg r s = (None, log_error cfg message s)"
      "message \<in> {''Encountered non-object value'',
          ''Encountered object without the 'type' string field'',
          ''Unregistered type: '' @ [CHR 0x27] @ string_of (Reflect_get r TYPE_FIELD)
             @ [CHR 0x27]}"
    using malformed_dropped [OF assms, of s] by blast
  have logs: "errorMessages (snd (tryToSaveToDb cfg r s)) = errorMessages s @ logged cfg [message]"
    by (simp add: m(1) log_error_def logged_def)
  have same: "objectsInTransaction (snd (tryToSaveToDb cfg r s)) = objectsInTransaction s
      \<and> inTransaction (snd (tryToSaveToDb cfg r s)) = inTransaction s
      \<and> store (snd (tryToSaveToDb cfg r s)) = store s
      \<and> executed (snd (tryToSaveToDb cfg r s)) = executed s"
    by (simp add: m(1) log_error_def)
  show ?thesis
    using m logs same group next_write next_writev by blast
qed

theorem malformed_record_dropped_witness:
  "malformed (test_settings 1000) (JNum 90)
   \<and> objectsInTransaction yogi_pending < maxObjectsInTransaction (test_settings 1000)
   \<and> tryToSaveToDb (test_settings 1000) (JNum 90) yogi_pending
       = (None, yogi_pending\<lparr>errorMessages := [''Encountered non-object value'']\<rparr>)
   \<and> same_outcome (writable_writev (test_settings 1000) ([bubu] @ JNum 90 # [bozo]) yogi_pending)
       (writable_writev (test_settings 1000) ([bubu] @ [bozo]) yogi_pending)
   \<and> same_outcome
       (and_then (writable_write (test_settings 1000) (JNum 90))
          (writable_write (test_settings 1000) bubu) yogi_pending)
       (writable_write (test_settings 1000) bubu yogi_pending)
   \<and> same_outcome
       (and_then (writable_write (test_settings 1000) (JNum 90))
          (writable_writev (test_settings 1000) [bozo]) yogi_pending)
       (writable_writev (test_settings 1000) [bozo] yogi_pending)"
proof -
  have h: "malformed (test_settings 1000) (JNum 90)"
    by (simp add: malformed_def)
  have b: "objectsInTransaction yogi_pending < maxObjectsInTransaction (test_settings 1000)"
    by (simp add: yogi_pending_def test_settings_def)
  have v: "tryToSaveToDb (test_settings 1000) (JNum 90) yogi_pending
      = (None, yogi_pending\<lparr>errorMessages := [''Encountered non-object value'']\<rparr>)"
    by (simp add: tryToSaveToDb_def log_error_def test_settings_def yogi_pending_def)
  show ?thesis
    using malformed_record_dropped [OF h, of yogi_pending "[bubu]" "[bozo]" bubu] h b v
    by simp
qed

section \<open>Statements that the database rejects (C6)\<close>

text \<open>
  C6. When the statement of one record of a group throws, \<open>tryToSaveToDb\<close> catches the error
  and logs it, and returns the state it was given with that one message logged: the count
  is not incremented and the transaction stays as it is. The loop goes on with the records
  after it, and the group has the same outcome, up to the error log, as the group without
  the failing record: the other records are saved and counted.
\<close>

theorem data_error_skipped:
  assumes "typeof r = TObject" and "r \<noteq> JNull"
    and "Reflect_get r TYPE_FIELD = JStr t" and "t \<noteq> []"
    and "serializersByType cfg t = Some ser"
    and "save_chunks cfg xs s = (None, s1)"
    and "serialize ser r (store s1) = Inl err"
  shows "tryToSaveToDb cfg r s1 = (None, log_error cfg (formatError cfg err) s1)
     \<and> objectsInTransaction (snd (tryToSaveToDb cfg r s1)) = objectsInTransaction s1
     \<and> inTransaction (snd (tryToSaveToDb cfg r s1)) = inTransaction s1
     \<and> store (snd (tryToSaveToDb cfg r s1)) = store s1
     \<and> executed (snd (tryToSaveToDb cfg r s1)) = executed s1
     \<and> save_chunks cfg (xs @ r # ys) s
         = save_chunks cfg ys (log_error cfg (formatError cfg err) s1)
     \<and> same_outcome (save_chunks cfg (xs @ r # ys) s) (save_chunks cfg (xs @ ys) s)
     \<and> (inTransaction s \<longrightarrow>
          same_outcome (writable_writev cfg (xs @ r # ys) s) (writable_writev cfg (xs @ ys) s))"
proof -
  have one: "tryToSaveToDb cfg r s1 = (None, log_error cfg (formatError cfg err) s1)"
    using assms by (simp add: tryToSaveToDb_def Let_def)
  have two: "save_chunks cfg (xs @ r # ys) s
      = save_chunks cfg ys (log_error cfg (formatError cfg err) s1)"
    by (simp add: save_chunks_append and_then_def assms(6) one)
  have without: "save_chunks cfg (xs @ ys) s = save_chunks cfg ys s1"
    by (simp add: save_chunks_append and_then_def assms(6))
  have "same_outcome (save_chunks cfg ys (log_error cfg (formatError cfg err) s1))
      (save_chunks cfg ys s1)"
    by (rule save_chunks_same) (rule log_error_same)
  then have three: "same_outcome (save_chunks cfg (xs @ r # ys) s) (save_chunks cfg (xs @ ys) s)"
    using two without by simp
  have four: "same_outcome (writable_writev cfg (xs @ r # ys) s)
      (writable_writev cfg (xs @ ys) s)" if "inTransaction s"
    unfolding writable_writev_def by (rule runInTransaction_open_same) (rule that, rule three)
  have same: "objectsInTransaction (snd (tryToSaveToDb cfg r s1)) = objectsInTransaction s1
      \<and> inTransaction (snd (tryToSaveToDb cfg r s1)) = inTransaction s1
      \<and> store (snd (tryToSaveToDb cfg r s1)) = store s1
      \<and> executed (snd (tryToSaveToDb cfg r s1)) = executed s1"
    by (simp add: one log_error_def)
  show ?thesis using one same two three four by blast
qed

theorem data_error_skipped_witness:
  "typeof fakeYogi = TObject \<and> fakeYogi \<noteq> JNull
   \<and> Reflect_get fakeYogi TYPE_FIELD = JStr ''bear'' \<and> ''bear'' \<noteq> []
   \<and> serializersByType (test_settings 1000) ''bear''
       = Some \<lparr>statement = insert_row False ''bears'', mapper = bear_mapper\<rparr>
   \<and> save_chunks (test_settings 1000) [bubu] yogi_pending
       = (None, yogi_pending\<lparr>objectsInTransaction := 2,
            store := [(''bears'', [JStr ''Yogi'', JNum 36]), (''bears'', [JStr ''Bubu'', JNum 34])]\<rparr>)
   \<and> serialize \<lparr>statement = insert_row False ''bears'', mapper = bear_mapper\<rparr> fakeYogi
       [(''bears'', [JStr ''Yogi'', JNum 36]), (''bears'', [JStr ''Bubu'', JNum 34])]
       = Inl (JsError ''SqliteError'' ''NOT NULL constraint failed'')
   \<and> inTransaction yogi_pending
   \<and> objectsInTransaction
       (snd (tryToSaveToDb (test_settings 1000) fakeYogi
          (yogi_pending\<lparr>objectsInTransaction := 2,
             store := [(''bears'', [JStr ''Yogi'', JNum 36]),
                       (''bears'', [JStr ''Bubu'', JNum 34])]\<rparr>))) = 2
   \<and> same_outcome (save_chunks (test_settings 1000) ([bubu] @ fakeYogi # [bozo]) yogi_pending)
       (save_chunks (test_settings 1000) ([bubu] @ [bozo]) yogi_pending)
   \<and> same_outcome (writable_writev (test_settings 1000) ([bubu] @ fakeYogi # [bozo]) yogi_pending)
       (writable_writev (test_settings 1000) ([bubu] @ [bozo]) yogi_pending)"
proof -
  let ?ser = "\<lparr>statement = insert_row False ''bears'', mapper = bear_mapper\<rparr>"
  let ?s1 = "yogi_pending\<lparr>objectsInTransaction := 2,
    store := [(''bears'', [JStr ''Yogi'', JNum 36]), (''bears'', [JStr ''Bubu'', JNum 34])]\<rparr>"
  have h1: "typeof fakeYogi = TObject" and h2: "fakeYogi \<noteq> JNull"
    and h3: "Reflect_get fakeYogi TYPE_FIELD = JStr ''bear''" and h4: "''bear'' \<noteq> []"
    by (simp_all add: fakeYogi_def TYPE_FIELD_def)
  have h5: "serializersByType (test_settings 1000) ''bear'' = Some ?ser"
    by (simp add: test_settings_def)
  have h6: "save_chunks (test_settings 1000) [bubu] yogi_pending = (None, ?s1)"
    by (simp add: and_then_def tryToSaveToDb_def Let_def TYPE_FIELD_def test_settings_def
        yogi_pending_def bubu_def serialize_def bear_mapper_def insert_row_def)
  have h7: "serialize ?ser fakeYogi (store ?s1)
      = Inl (JsError ''SqliteError'' ''NOT NULL constraint failed'')"
    by (simp add: serialize_def bear_mapper_def insert_row_def fakeYogi_def)
  have h8: "inTransaction yogi_pending" by (simp add: yogi_pending_def)
  note skipped = data_error_skipped [OF h1 h2 h3 h4 h5 h6 h7, of "[bozo]"]
  have v: "objectsInTransaction (snd (tryToSaveToDb (test_settings 1000) fakeYogi ?s1)) = 2"
    using skipped by (simp add: log_error_def)
  have h7': "serialize ?ser fakeYogi
      [(''bears'', [JStr ''Yogi'', JNum 36]), (''bears'', [JStr ''Bubu'', JNum 34])]
      = Inl (JsError ''SqliteError'' ''NOT NULL constraint failed'')"
    using h7 by simp
  show ?thesis
    using skipped h1 h2 h3 h4 h5 h6 h7' h8 v by blast
qed

section \<open>Errors of \<open>BEGIN\<close> and \<open>COMMIT\<close> (C7)\<close>

text \<open>
  C7. When the \<open>COMMIT\<close> of \<open>_final\<close> throws, the error is the argument of the callback and
  the state is the one before the call, with the debug message logged and the statement
  handed to the database: the transaction stays open, the count is not reset and nothing
  goes to the error log. When the \<open>BEGIN TRANSACTION\<close> or the \<open>COMMIT\<close> of
  \<open>runInTransaction\<close>, through which \<open>_write\<close> and \<open>_writev\<close> go, throws, the error is the
  result as well, and nothing goes to the error log.
\<close>

theorem commit_failure_propagates:
  "(objectsInTransaction s \<noteq> 0 \<and> exec (db cfg) ''COMMIT'' (store s) = Inl err \<longrightarrow>
      writable_final cfg s =
        (Some err,
         (log_debug cfg
            (''Final commit with '' @ show_int (objectsInTransaction s) @ '' objects...'') s)
           \<lparr>executed := executed s @ [''COMMIT'']\<rparr>)
      \<and> inTransaction (snd (writable_final cfg s)) = inTransaction s
      \<and> objectsInTransaction (snd (writable_final cfg s)) = objectsInTransaction s
      \<and> store (snd (writable_final cfg s)) = store s
      \<and> errorMessages (snd (writable_final cfg s)) = errorMessages s)
   \<and> (\<not> inTransaction s \<and> exec (db cfg) ''BEGIN TRANSACTION'' (store s) = Inl err \<longrightarrow>
        runInTransaction cfg f s =
          (Some err,
           (log_debug cfg ''Beginning transaction...'' s)
             \<lparr>executed := executed s @ [''BEGIN TRANSACTION'']\<rparr>)
        \<and> errorMessages (snd (runInTransaction cfg f s)) = errorMessages s)
   \<and> (begin_if_idle cfg s = (None, s1) \<and> f s1 = (None, s2)
        \<and> maxObjectsInTransaction cfg \<le> objectsInTransaction s2
        \<and> exec (db cfg) ''COMMIT'' (store s2) = Inl err \<longrightarrow>
        runInTransaction cfg f s =
          (Some err,
           (log_debug cfg
              (''Committing transaction with '' @ show_int (objectsInTransaction s2)
                 @ '' objects...'') s2)
             \<lparr>executed := executed s2 @ [''COMMIT'']\<rparr>)
        \<and> inTransaction (snd (runInTransaction cfg f s)) = inTransaction s2
        \<and> objectsInTransaction (snd (runInTransaction cfg f s)) = objectsInTransaction s2
        \<and> errorMessages (snd (runInTransaction cfg f s)) = errorMessages s2)"
  by (simp add: writable_final_def runInTransaction_phases commit_if_full_def begin_if_idle_def
      and_then_def db_exec_def log_debug_def)

theorem commit_failure_propagates_witness:
  "objectsInTransaction yogi_pending \<noteq> 0
   \<and> exec (db (crashing_settings 2)) ''COMMIT'' (store yogi_pending)
       = Inl (JsError ''Error'' ''Test exec error!'')
   \<and> writable_final (crashing_settings 2) yogi_pending =
       (Some (JsError ''Error'' ''Test exec error!''),
        yogi_pending\<lparr>executed := [''BEGIN TRANSACTION'', ''COMMIT''],
          debugMessages := [''Beginning transaction...'', ''Final commit with 1 objects...'']\<rparr>)
   \<and> \<not> inTransaction (new_sink ([] :: test_db))
   \<and> exec (db (crashing_settings 2)) ''BEGIN TRANSACTION'' (store (new_sink []))
       = Inl (JsError ''Error'' ''Test exec error!'')
   \<and> writable_write (crashing_settings 2) yogi (new_sink []) =
       (Some (JsError ''Error'' ''Test exec error!''),
        (new_sink [])\<lparr>executed := [''BEGIN TRANSACTION''],
          debugMessages := [''Beginning transaction...'']\<rparr>)
   \<and> begin_if_idle (crashing_settings 2) yogi_pending = (None, yogi_pending)
   \<and> fst (tryToSaveToDb (crashing_settings 2) bubu yogi_pending) = None
   \<and> maxObjectsInTransaction (crashing_settings 2)
       \<le> objectsInTransaction (snd (tryToSaveToDb (crashing_settings 2) bubu yogi_pending))
   \<and> fst (writable_write (crashing_settings 2) bubu yogi_pending)
       = Some (JsError ''Error'' ''Test exec error!'')
   \<and> errorMessages (snd (writable_write (crashing_settings 2) bubu yogi_pending)) = []
   \<and> inTransaction (snd (writable_write (crashing_settings 2) bubu yogi_pending))
   \<and> objectsInTransaction (snd (writable_write (crashing_settings 2) bubu yogi_pending)) = 2"
proof -
  let ?cfg = "crashing_settings 2"
  let ?err = "JsError ''Error'' ''Test exec error!''"
  let ?s2 = "yogi_pending\<lparr>objectsInTransaction := 2,
    store := [(''bears'', [JStr ''Yogi'', JNum 36]), (''bears'', [JStr ''Bubu'', JNum 34])]\<rparr>"
  have a1: "objectsInTransaction yogi_pending \<noteq> 0" by (simp add: yogi_pending_def)
  have crash: "exec (db ?cfg) sql d = Inl ?err" for sql d
    by (simp add: crashing_settings_def crashing_database_def)
  have b1: "\<not> inTransaction (new_sink ([] :: test_db))" by (simp add: new_sink_def)
  have c1: "begin_if_idle ?cfg yogi_pending = (None, yogi_pending)"
    by (simp add: begin_if_idle_def yogi_pending_def)
  have c2: "tryToSaveToDb ?cfg bubu yogi_pending = (None, ?s2)"
    by (simp add: tryToSaveToDb_def Let_def TYPE_FIELD_def crashing_settings_def
        test_settings_def yogi_pending_def bubu_def serialize_def bear_mapper_def insert_row_def)
  have c3: "maxObjectsInTransaction ?cfg \<le> objectsInTransaction ?s2"
    by (simp add: crashing_settings_def test_settings_def)
  have lg: "logger ?cfg" by (simp add: crashing_settings_def test_settings_def)
  show ?thesis
    using commit_failure_propagates [of yogi_pending ?cfg ?err "tryToSaveToDb ?cfg yogi"
        yogi_pending "yogi_pending"]
      commit_failure_propagates [of "new_sink []" ?cfg ?err "tryToSaveToDb ?cfg yogi"
        yogi_pending "yogi_pending"]
      commit_failure_propagates [of yogi_pending ?cfg ?err "tryToSaveToDb ?cfg bubu"
        yogi_pending ?s2]
      a1 b1 c1 c2 c3 crash
    by (simp add: writable_write_def log_debug_def lg show_int_def show_nat.simps
        yogi_pending_def new_sink_def)
qed

section \<open>Flushing with nothing pending (C8)\<close>

text \<open>
  C8. \<open>_final\<close> called with a count of zero returns without throwing and leaves the state,
  with the statements handed to the database and both logs, exactly as it was. A \<open>_final\<close>
  called after a \<open>_final\<close> that has returned is therefore such a call: it changes nothing.
\<close>

theorem flush_without_pending_work:
  "(objectsInTransaction s = 0 \<longrightarrow> writable_final cfg s = (None, s))
   \<and> (writable_final cfg s = (None, s') \<longrightarrow> writable_final cfg s' = (None, s'))"
  by (auto simp add: writable_final_def and_then_def db_exec_def split: sum.splits if_splits)

theorem flush_without_pending_work_witness:
  "objectsInTransaction (new_sink ([] :: test_db)) = 0
   \<and> writable_final (test_settings 2) (new_sink []) = (None, new_sink [])
   \<and> writable_final (test_settings 2) yogi_pending = (None, yogi_flushed)
   \<and> writable_final (test_settings 2) yogi_flushed = (None, yogi_flushed)"
proof -
  have z: "objectsInTransaction (new_sink ([] :: test_db)) = 0"
    by (simp add: new_sink_def)
  have f: "writable_final (test_settings 2) yogi_pending = (None, yogi_flushed)"
    by (simp add: writable_final_def and_then_def log_debug_def db_exec_def test_settings_def
        test_database_def yogi_pending_def yogi_flushed_def show_int_def show_nat.simps)
  show ?thesis
    using flush_without_pending_work [of "new_sink []" "test_settings 2" "new_sink []"]
      flush_without_pending_work [of yogi_pending "test_settings 2" yogi_flushed] z f
    by simp
qed

section \<open>The empty string as a type (C9)\<close>

text \<open>
  C9. An object whose \<open>type\<close> is the empty string is logged as an object without the
  \<open>type\<close> string field and skipped, whatever the registry holds: the registry is not
  consulted, so a serializer registered under the empty string is not selected.
\<close>

theorem empty_type_is_missing_discriminant:
  "map_of props ''type'' = Some (JStr []) \<Longrightarrow>
   tryToSaveToDb cfg (JObj props) s =
     (None, log_error cfg ''Encountered object without the 'type' string field'' s)"
  by (simp add: tryToSaveToDb_def Let_def TYPE_FIELD_def)

theorem empty_type_is_missing_discriminant_witness:
  "map_of [(''type'', JStr []), (''name'', JStr ''Yogi''), (''age'', JNum 36)] ''type''
     = Some (JStr [])
   \<and> serializersByType empty_key_settings []
       = Some \<lparr>statement = insert_row True ''bears'', mapper = bear_mapper\<rparr>
   \<and> tryToSaveToDb empty_key_settings nameless (new_sink []) =
       (None, (new_sink [])
          \<lparr>errorMessages := [''Encountered object without the 'type' string field'']\<rparr>)"
  using empty_type_is_missing_discriminant
    [of "[(''type'', JStr []), (''name'', JStr ''Yogi''), (''age'', JNum 36)]"
      empty_key_settings "new_sink []"]
  by (simp add: nameless_def log_error_def empty_key_settings_def new_sink_def)

section \<open>A delivery of invalid records only (C10)\<close>

text \<open>
  C10. A delivery to a sink with no open transaction and nothing pending issues
  \<open>BEGIN TRANSACTION\<close> before it looks at any record: when that statement throws, the
  delivery ends with this error whatever the records are, none of them examined. When it
  returns and every record of the delivery is one the sink cannot dispatch, the delivery
  ends with the transaction open, a count of zero and \<open>BEGIN TRANSACTION\<close> the only
  statement handed to the database; the \<open>_final\<close> that follows changes nothing, so it
  issues no \<open>COMMIT\<close> and the transaction stays open.
\<close>

theorem invalid_delivery_leaves_transaction_open:
  assumes "\<not> inTransaction s" and "objectsInTransaction s = 0"
    and "0 < maxObjectsInTransaction cfg" and "\<forall>r\<in>set rs. malformed cfg r"
  shows "(exec (db cfg) ''BEGIN TRANSACTION'' (store s) = Inr d \<longrightarrow>
           (\<exists>s'. writable_writev cfg rs s = (None, s')
              \<and> inTransaction s' \<and> objectsInTransaction s' = 0 \<and> store s' = d
              \<and> executed s' = executed s @ [''BEGIN TRANSACTION'']
              \<and> writable_final cfg s' = (None, s'))
           \<and> (\<forall>r\<in>set rs. \<exists>s'. writable_write cfg r s = (None, s')
              \<and> inTransaction s' \<and> objectsInTransaction s' = 0 \<and> store s' = d
              \<and> executed s' = executed s @ [''BEGIN TRANSACTION'']
              \<and> writable_final cfg s' = (None, s')))
     \<and> (exec (db cfg) ''BEGIN TRANSACTION'' (store s) = Inl err \<longrightarrow>
           writable_writev cfg chunks s =
             (Some err, (log_debug cfg ''Beginning transaction...'' s)
                \<lparr>executed := executed s @ [''BEGIN TRANSACTION'']\<rparr>)
           \<and> writable_write cfg chunk s =
             (Some err, (log_debug cfg ''Beginning transaction...'' s)
                \<lparr>executed := executed s @ [''BEGIN TRANSACTION'']\<rparr>))"
proof (rule conjI; rule impI)
  assume ok: "exec (db cfg) ''BEGIN TRANSACTION'' (store s) = Inr d"
  define u where "u = (log_debug cfg ''Beginning transaction...'' s)
    \<lparr>inTransaction := True, store := d, executed := executed s @ [''BEGIN TRANSACTION'']\<rparr>"
  have b: "begin_if_idle cfg s = (None, u)"
    unfolding u_def by (rule begin_if_idle_ok [OF assms(1) ok])
  have after: "\<exists>s'. runInTransaction cfg (save_chunks cfg qs) s = (None, s')
      \<and> inTransaction s' \<and> objectsInTransaction s' = 0 \<and> store s' = d
      \<and> executed s' = executed s @ [''BEGIN TRANSACTION'']
      \<and> writable_final cfg s' = (None, s')"
    if q: "\<forall>r\<in>set qs. malformed cfg r" for qs
  proof -
    obtain s' where s': "save_chunks cfg qs u = (None, s')" "same_but_errors s' u"
      using malformed_chunks_dropped [OF q, of u] by blast
    have f: "inTransaction s' \<and> objectsInTransaction s' = 0 \<and> store s' = d
        \<and> executed s' = executed s @ [''BEGIN TRANSACTION'']"
      using s'(2) assms(2) by (simp add: same_but_errors_def u_def log_debug_def)
    then have "commit_if_full cfg s' = (None, s')"
      using assms(3) by (simp add: commit_if_full_below)
    then have "runInTransaction cfg (save_chunks cfg qs) s = (None, s')"
      by (simp add: runInTransaction_phases and_then_def b s'(1))
    moreover have "writable_final cfg s' = (None, s')"
      using f by (simp add: writable_final_def)
    ultimately show ?thesis using f by blast
  qed
  have single: "writable_write cfg r s = runInTransaction cfg (save_chunks cfg [r]) s" for r
  proof -
    have "and_then (tryToSaveToDb cfg r) (commit_if_full cfg) v
        = and_then (save_chunks cfg [r]) (commit_if_full cfg) v" for v
      by (cases "tryToSaveToDb cfg r v") (simp add: and_then_def split: option.splits)
    then show ?thesis
      by (simp add: writable_write_def runInTransaction_phases and_then_def
          split: prod.splits option.splits)
  qed
  show "(\<exists>s'. writable_writev cfg rs s = (None, s')
              \<and> inTransaction s' \<and> objectsInTransaction s' = 0 \<and> store s' = d
              \<and> executed s' = executed s @ [''BEGIN TRANSACTION'']
              \<and> writable_final cfg s' = (None, s'))
           \<and> (\<forall>r\<in>set rs. \<exists>s'. writable_write cfg r s = (None, s')
              \<and> inTransaction s' \<and> objectsInTransaction s' = 0 \<and> store s' = d
              \<and> executed s' = executed s @ [''BEGIN TRANSACTION'']
              \<and> writable_final cfg s' = (None, s'))"
  proof (rule conjI)
    show "\<exists>s'. writable_writev cfg rs s = (None, s')
              \<and> inTransaction s' \<and> objectsInTransaction s' = 0 \<and> store s' = d
              \<and> executed s' = executed s @ [''BEGIN TRANSACTION'']
              \<and> writable_final cfg s' = (None, s')"
      unfolding writable_writev_def by (rule after [OF assms(4)])
  next
    show "\<forall>r\<in>set rs. \<exists>s'. writable_write cfg r s = (None, s')
              \<and> inTransaction s' \<and> objectsInTransaction s' = 0 \<and> store s' = d
              \<and> executed s' = executed s @ [''BEGIN TRANSACTION'']
              \<and> writable_final cfg s' = (None, s')"
    proof
      fix r assume "r \<in> set rs"
      then have "\<forall>q\<in>set [r]. malformed cfg q" using assms(4) by simp
      from after [OF this] show "\<exists>s'. writable_write cfg r s = (None, s')
              \<and> inTransaction s' \<and> objectsInTransaction s' = 0 \<and> store s' = d
              \<and> executed s' = executed s @ [''BEGIN TRANSACTION'']
              \<and> writable_final cfg s' = (None, s')"
        by (simp only: single)
    qed
  qed
next
  assume bad: "exec (db cfg) ''BEGIN TRANSACTION'' (store s) = Inl err"
  show "writable_writev cfg chunks s =
             (Some err, (log_debug cfg ''Beginning transaction...'' s)
                \<lparr>executed := executed s @ [''BEGIN TRANSACTION'']\<rparr>)
           \<and> writable_write cfg chunk s =
             (Some err, (log_debug cfg ''Beginning transaction...'' s)
                \<lparr>executed := executed s @ [''BEGIN TRANSACTION'']\<rparr>)"
    by (simp add: writable_writev_def writable_write_def runInTransaction_phases and_then_def
        begin_if_idle_fails [OF assms(1) bad])
qed

theorem invalid_delivery_leaves_transaction_open_witness:
  "\<not> inTransaction (new_sink ([] :: test_db))
   \<and> objectsInTransaction (new_sink ([] :: test_db)) = 0
   \<and> 0 < maxObjectsInTransaction (test_settings 1000)
   \<and> malformed (test_settings 1000) (JNum 90) \<and> malformed (test_settings 1000) dodo
   \<and> exec (db (test_settings 1000)) ''BEGIN TRANSACTION'' (store (new_sink [])) = Inr []
   \<and> writable_writev (test_settings 1000) [JNum 90, dodo] (new_sink [])
       = (None, only_invalid_delivered)
   \<and> writable_final (test_settings 1000) only_invalid_delivered = (None, only_invalid_delivered)
   \<and> 0 < maxObjectsInTransaction (crashing_settings 1000)
   \<and> malformed (crashing_settings 1000) (JNum 90) \<and> malformed (crashing_settings 1000) dodo
   \<and> exec (db (crashing_settings 1000)) ''BEGIN TRANSACTION'' (store (new_sink []))
       = Inl (JsError ''Error'' ''Test exec error!'')
   \<and> writable_writev (crashing_settings 1000) [yogi, bubu] (new_sink [])
       = (Some (JsError ''Error'' ''Test exec error!''),
          (new_sink [])\<lparr>executed := [''BEGIN TRANSACTION''],
            debugMessages := [''Beginning transaction...'']\<rparr>)
   \<and> writable_write (crashing_settings 1000) yogi (new_sink [])
       = (Some (JsError ''Error'' ''Test exec error!''),
          (new_sink [])\<lparr>executed := [''BEGIN TRANSACTION''],
            debugMessages := [''Beginning transaction...'']\<rparr>)"
proof -
  have h1: "\<not> inTransaction (new_sink ([] :: test_db))"
    and h2: "objectsInTransaction (new_sink ([] :: test_db)) = 0"
    by (simp_all add: new_sink_def)
  have h3: "0 < maxObjectsInTransaction (test_settings 1000)"
    and h3': "0 < maxObjectsInTransaction (crashing_settings 1000)"
    by (simp_all add: test_settings_def crashing_settings_def)
  have h4: "\<forall>r\<in>set [JNum 90, dodo]. malformed (test_settings 1000) r"
    and h4': "\<forall>r\<in>set [JNum 90, dodo]. malformed (crashing_settings 1000) r"
    by (simp_all add: malformed_def dodo_def TYPE_FIELD_def)
  have ok: "exec (db (test_settings 1000)) ''BEGIN TRANSACTION'' (store (new_sink [])) = Inr []"
    by (simp add: test_settings_def test_database_def new_sink_def)
  have bad: "exec (db (crashing_settings 1000)) ''BEGIN TRANSACTION'' (store (new_sink []))
      = Inl (JsError ''Error'' ''Test exec error!'')"
    by (simp add: crashing_settings_def crashing_database_def)
  have lg: "logger (crashing_settings 1000)"
    by (simp add: crashing_settings_def test_settings_def)
  have v: "writable_writev (test_settings 1000) [JNum 90, dodo] (new_sink [])
      = (None, only_invalid_delivered)"
    by (simp add: writable_writev_def runInTransaction_def and_then_def tryToSaveToDb_def
        Let_def TYPE_FIELD_def log_debug_def log_error_def db_exec_def test_settings_def
        test_database_def new_sink_def dodo_def only_invalid_delivered_def)
  have f: "writable_final (test_settings 1000) only_invalid_delivered
      = (None, only_invalid_delivered)"
    using invalid_delivery_leaves_transaction_open [OF h1 h2 h3 h4, of "[]"] ok v by auto
  have c: "writable_writev (crashing_settings 1000) [yogi, bubu] (new_sink [])
       = (Some (JsError ''Error'' ''Test exec error!''),
          (new_sink [])\<lparr>executed := [''BEGIN TRANSACTION''],
            debugMessages := [''Beginning transaction...'']\<rparr>)
     \<and> writable_write (crashing_settings 1000) yogi (new_sink [])
       = (Some (JsError ''Error'' ''Test exec error!''),
          (new_sink [])\<lparr>executed := [''BEGIN TRANSACTION''],
            debugMessages := [''Beginning transaction...'']\<rparr>)"
    using invalid_delivery_leaves_transaction_open
        [OF h1 h2 h3' h4', of "[]" "JsError ''Error'' ''Test exec error!''" "[yogi, bubu]" yogi]
      bad
    by (simp add: log_debug_def lg new_sink_def)
  have each: "malformed (test_settings 1000) (JNum 90) \<and> malformed (test_settings 1000) dodo
      \<and> malformed (crashing_settings 1000) (JNum 90)
      \<and> malformed (crashing_settings 1000) dodo"
    using h4 h4' by simp
  show ?thesis
    using h1 h2 h3 h3' each ok bad v f c by blast
qed

end
